theory Spec2Isabelle
  imports Complex_Main "HOL-Library.Sublist"
begin

section \<open>JavaScript strings\<close>

text \<open>
  A JavaScript string is a sequence of UTF-16 code units; a code unit is modelled by its
  number. The regular expressions and string methods of the sources all work unit by unit
  (none of them uses the \<open>u\<close> flag), so a Thai letter, which is one code unit in the
  range U+0E00 .. U+0E7F, is one element of the list.
\<close>

type_synonym jsstring = "nat list"

text \<open>Literals of the sources that are plain ASCII are written with \<open>str\<close>.\<close>

definition str :: "string \<Rightarrow> jsstring" where
  "str s = map of_char s"

section \<open>JavaScript numbers\<close>

text \<open>
  A JavaScript number is an IEEE 754 double. A finite double that is not negative is
  written here as a pair \<open>(m, e)\<close> that stands for \<open>m * 2^e\<close>. The result of an arithmetic
  operation is the exact result rounded to the nearest double, ties to the even
  mantissa. The operations are modelled on the values that the component computes with:
  quotients of two array lengths and their products with 100, which all lie in the
  normal range of the format, and the integers that \<open>parseInt\<close> reads.
\<close>

type_synonym double = "nat \<times> int"

text \<open>The number of binary digits of a natural number.\<close>

fun bitLength :: "nat \<Rightarrow> nat" where
  "bitLength n = (if n = 0 then 0 else Suc (bitLength (n div 2)))"

declare bitLength.simps [simp del]

text \<open>The integer nearest to \<open>n / d\<close>, the even one of two that are equally near.\<close>

definition roundTiesEven :: "nat \<Rightarrow> nat \<Rightarrow> nat" where
  "roundTiesEven n d =
     (let q = n div d; r = n mod d
      in if 2 * r < d then q
         else if d < 2 * r then q + 1
         else if even q then q else q + 1)"

text \<open>
  The exponent of the leading binary digit of \<open>n / d\<close>, for positive \<open>n\<close> and \<open>d\<close>: the \<open>l\<close>
  with \<open>2^l \<le> n / d < 2^(l + 1)\<close>. The difference of the bit lengths is \<open>l\<close> or \<open>l + 1\<close>.
\<close>

definition floorLog2 :: "nat \<Rightarrow> nat \<Rightarrow> int" where
  "floorLog2 n d =
     (let k = int (bitLength n) - int (bitLength d)
      in if (if 0 \<le> k then d * 2 ^ nat k \<le> n else d \<le> n * 2 ^ nat (- k)) then k else k - 1)"

text \<open>
  The double nearest to \<open>n / d\<close>: the quotient is scaled so that its leading digit is
  the 53rd digit of the mantissa, and rounded to an integer there.
\<close>

definition toDouble :: "nat \<Rightarrow> nat \<Rightarrow> double" where
  "toDouble n d =
     (if n = 0 then (0, 0)
      else let e = floorLog2 n d - 52
           in (if 0 \<le> e then roundTiesEven n (d * 2 ^ nat e)
               else roundTiesEven (n * 2 ^ nat (- e)) d, e))"





text \<open>
  The numbers that \<open>parseInt\<close> returns: \<open>NaN\<close>, the two infinities, and the doubles whose
  value is an integer, each written by that integer (\<open>-0\<close> is written \<open>0\<close>).
\<close>

datatype number = NaN | Finite int | PosInfinity | NegInfinity

text \<open>
  The number for a mathematical integer: the integer itself when it has at most 53
  binary digits, else the nearest double, and an infinity when that double would reach
  \<open>2^1024\<close>.
\<close>

definition numberOfInteger :: "int \<Rightarrow> number" where
  "numberOfInteger i =
     (let n = nat \<bar>i\<bar>
      in if n < 2 ^ 53 then Finite i
         else case toDouble n 1 of (m, e) \<Rightarrow>
           (let v = m * 2 ^ nat e
            in if 2 ^ 1024 \<le> v then (if i < 0 then NegInfinity else PosInfinity)
               else Finite (if i < 0 then - int v else int v)))"

text \<open>\<open>isNaN(x)\<close> and \<open>x > 0\<close>; every comparison with \<open>NaN\<close> is false.\<close>

definition isNaN :: "number \<Rightarrow> bool" where
  "isNaN x \<longleftrightarrow> x = NaN"

definition greaterThanZero :: "number \<Rightarrow> bool" where
  "greaterThanZero x \<longleftrightarrow> (case x of Finite v \<Rightarrow> 0 < v | PosInfinity \<Rightarrow> True | _ \<Rightarrow> False)"

section \<open>Branch resolver (src/utils/branchResolver.ts)\<close>

text \<open>
  \<open>String.prototype.toLowerCase\<close>. The Unicode lower-case mapping is written out for
  the code points whose image contains an ASCII character: the letters A .. Z, U+0130
  (capital I with dot above, which becomes \<open>i\<close> followed by U+0307) and U+212A (the Kelvin
  sign, which becomes \<open>k\<close>). Every other cased code point, and its lower-case image, lies
  outside ASCII and outside the Thai block, which has no case; such a unit is left as it is
  here, and \<open>normalizeBranchKey\<close> below removes it either way.
\<close>

definition toLowerCaseUnit :: "nat \<Rightarrow> jsstring" where
  "toLowerCaseUnit c =
     (if 65 \<le> c \<and> c \<le> 90 then [c + 32]
      else if c = 304 then [105, 775]
      else if c = 8490 then [107]
      else [c])"

definition toLowerCase :: "jsstring \<Rightarrow> jsstring" where
  "toLowerCase s = concat (map toLowerCaseUnit s)"

text \<open>The units that the character class \<^verbatim>\<open>[^a-z0-9\u0E00-\u0E7F]\<close> does not match.\<close>

definition keyUnit :: "nat \<Rightarrow> bool" where
  "keyUnit c \<longleftrightarrow> (97 \<le> c \<and> c \<le> 122) \<or> (48 \<le> c \<and> c \<le> 57) \<or> (3584 \<le> c \<and> c \<le> 3711)"

text \<open>\<^verbatim>\<open>name.toLowerCase().replace(/[^a-z0-9\u0E00-\u0E7F]/g, '')\<close>\<close>

definition normalizeBranchKey :: "jsstring \<Rightarrow> jsstring" where
  "normalizeBranchKey name = filter keyUnit (toLowerCase name)"

text \<open>
  The \<open>for .. of\<close> loop of \<open>resolveCanonicalBranch\<close>. A JavaScript \<open>Set\<close> is iterated in
  insertion order and holds no element twice: it is modelled by the list of its members
  in that order.
\<close>

fun scanCanonical :: "jsstring \<Rightarrow> jsstring list \<Rightarrow> jsstring option" where
  "scanCanonical rawKey [] = None"
| "scanCanonical rawKey (canonical # rest) =
     (if normalizeBranchKey canonical = rawKey then Some canonical
      else scanCanonical rawKey rest)"

text \<open>\<open>null\<close> is \<open>None\<close>; the empty string is the only falsy string.\<close>

definition resolveCanonicalBranch :: "jsstring \<Rightarrow> jsstring list \<Rightarrow> jsstring option" where
  "resolveCanonicalBranch rawBranch canonicalBranches =
     (if rawBranch = [] then None
      else scanCanonical (normalizeBranchKey rawBranch) canonicalBranches)"

text \<open>The character classes the specification names.\<close>

definition asciiLetter :: "nat \<Rightarrow> bool" where
  "asciiLetter c \<longleftrightarrow> (65 \<le> c \<and> c \<le> 90) \<or> (97 \<le> c \<and> c \<le> 122)"

definition asciiDigit :: "nat \<Rightarrow> bool" where
  "asciiDigit c \<longleftrightarrow> 48 \<le> c \<and> c \<le> 57"

definition thaiUnit :: "nat \<Rightarrow> bool" where
  "thaiUnit c \<longleftrightarrow> 3584 \<le> c \<and> c \<le> 3711"

section \<open>String methods used by the tracking component\<close>

text \<open>
  The units that \<open>String.prototype.trim\<close>, the leading-blank skip of \<open>parseInt\<close> and the
  class \<^verbatim>\<open>\s\<close> of a regular expression all treat as blank: the WhiteSpace and
  LineTerminator code points of ECMAScript (tab, LF, VT, FF, CR, space, U+00A0, U+1680,
  U+2000 .. U+200A, U+2028, U+2029, U+202F, U+205F, U+3000, U+FEFF).
\<close>

definition isWhiteSpace :: "nat \<Rightarrow> bool" where
  "isWhiteSpace c \<longleftrightarrow>
     c = 9 \<or> c = 10 \<or> c = 11 \<or> c = 12 \<or> c = 13 \<or> c = 32 \<or> c = 160 \<or> c = 5760
     \<or> (8192 \<le> c \<and> c \<le> 8202) \<or> c = 8232 \<or> c = 8233 \<or> c = 8239 \<or> c = 8287
     \<or> c = 12288 \<or> c = 65279"

definition trim :: "jsstring \<Rightarrow> jsstring" where
  "trim s = rev (dropWhile isWhiteSpace (rev (dropWhile isWhiteSpace s)))"

text \<open>
  \<open>s.split(sep)\<close> for a separator of one unit. The result is never empty: the empty
  string splits into one empty piece.
\<close>

fun js_split :: "nat \<Rightarrow> jsstring \<Rightarrow> jsstring list" where
  "js_split sep [] = [[]]"
| "js_split sep (c # cs) =
     (if c = sep then [] # js_split sep cs
      else case js_split sep cs of
             piece # pieces \<Rightarrow> (c # piece) # pieces
           | [] \<Rightarrow> [[c]])"

text \<open>\<open>pieces.join(sep)\<close>\<close>

fun js_join :: "jsstring \<Rightarrow> jsstring list \<Rightarrow> jsstring" where
  "js_join sep [] = []"
| "js_join sep [p] = p"
| "js_join sep (p # q # ps) = p @ sep @ js_join sep (q # ps)"

text \<open>\<open>s.includes(sub)\<close>, called \<open>includesStr\<close> here, and \<open>s.startsWith(sub)\<close>\<close>

fun includesStr :: "jsstring \<Rightarrow> jsstring \<Rightarrow> bool" where
  "includesStr [] sub \<longleftrightarrow> sub = []"
| "includesStr (c # cs) sub \<longleftrightarrow> prefix sub (c # cs) \<or> includesStr cs sub"

definition startsWith :: "jsstring \<Rightarrow> jsstring \<Rightarrow> bool" where
  "startsWith s sub \<longleftrightarrow> prefix sub s"

text \<open>
  \<^verbatim>\<open>s.replace(/^"|"$/g, '')\<close>: a double quote (unit 34) at the very start is removed,
  and a double quote at the very end of what is left of the input is removed. On the
  one-unit string \<^verbatim>\<open>"\<close> the first alternative consumes the quote and nothing is left
  for the second.
\<close>

definition stripQuotes :: "jsstring \<Rightarrow> jsstring" where
  "stripQuotes s =
     (let s1 = (case s of [] \<Rightarrow> [] | c # r \<Rightarrow> if c = 34 then r else s)
      in if s1 \<noteq> [] \<and> last s1 = 34 then butlast s1 else s1)"

text \<open>
  \<^verbatim>\<open>s.replace(/\s+/g, '_')\<close>: every maximal run of blank units becomes one
  underscore (unit 95).
\<close>

function collapseSpaces :: "jsstring \<Rightarrow> jsstring" where
  "collapseSpaces [] = []"
| "collapseSpaces (c # cs) =
     (if isWhiteSpace c then 95 # collapseSpaces (dropWhile isWhiteSpace cs)
      else c # collapseSpaces cs)"
  by pat_completeness auto
termination
  by (relation "measure length") (auto simp: length_dropWhile_le less_Suc_eq_le)

text \<open>
  \<open>parseInt(s)\<close> with no radix. Leading blanks are skipped, one sign is read, a prefix
  \<open>0x\<close> or \<open>0X\<close> selects radix 16 (radix 10 otherwise), and the longest run of digits of
  that radix is the number; whatever follows the digits is ignored. The result is \<open>NaN\<close>
  when there is no digit, and else the number for the signed value of the digits. All
  digits are read exactly, as the engines do; the language definition also lets an
  implementation read the decimal digits after the 20th as \<open>0\<close>.
\<close>

definition digitValue :: "nat \<Rightarrow> nat \<Rightarrow> nat option" where
  "digitValue radix c =
     (if 48 \<le> c \<and> c \<le> 57 then Some (c - 48)
      else if radix = 16 \<and> 97 \<le> c \<and> c \<le> 102 then Some (c - 87)
      else if radix = 16 \<and> 65 \<le> c \<and> c \<le> 70 then Some (c - 55)
      else None)"

fun digitsValue :: "nat \<Rightarrow> nat \<Rightarrow> jsstring \<Rightarrow> nat" where
  "digitsValue radix acc [] = acc"
| "digitsValue radix acc (c # cs) =
     (case digitValue radix c of
        None \<Rightarrow> acc
      | Some d \<Rightarrow> digitsValue radix (acc * radix + d) cs)"

definition parseInt :: "jsstring \<Rightarrow> number" where
  "parseInt inputString =
     (let s = dropWhile isWhiteSpace inputString;
          sign = (if s \<noteq> [] \<and> hd s = 45 then - 1 else 1 :: int);
          s1 = (if s \<noteq> [] \<and> (hd s = 43 \<or> hd s = 45) then tl s else s);
          hex = (startsWith s1 (str ''0x'') \<or> startsWith s1 (str ''0X''));
          radix = (if hex then 16 else 10);
          s2 = (if hex then drop 2 s1 else s1)
      in if s2 = [] \<or> digitValue radix (hd s2) = None then NaN
         else numberOfInteger (sign * int (digitsValue radix 0 s2)))"

text \<open>The decimal digits of a natural number.\<close>

fun digitsOf :: "nat \<Rightarrow> jsstring" where
  "digitsOf n = (if n < 10 then [48 + n] else digitsOf (n div 10) @ [48 + n mod 10])"

declare digitsOf.simps [simp del]

text \<open>
  The text of a number in a template literal. An integer below \<open>10^21\<close> in magnitude is
  written in plain decimal digits. From \<open>10^21\<close> on the notation is exponential, with
  the fewest digits that still identify the double; that text is a built-in of the
  language and is taken as the parameter \<open>exponential\<close>.
\<close>

definition numberToString :: "(int \<Rightarrow> jsstring) \<Rightarrow> number \<Rightarrow> jsstring" where
  "numberToString exponential x =
     (case x of
        NaN \<Rightarrow> str ''NaN''
      | PosInfinity \<Rightarrow> str ''Infinity''
      | NegInfinity \<Rightarrow> str ''-Infinity''
      | Finite v \<Rightarrow>
          if \<bar>v\<bar> < 10 ^ 21
          then (if v < 0 then 45 # digitsOf (nat (- v)) else digitsOf (nat v))
          else exponential v)"

section \<open>The catalog and its ingestion (src/Component/PopTracking.tsx, parseCSV)\<close>

text \<open>
  \<open>interface InventoryItem\<close>. The field \<open>id\<close> is called \<open>idStr\<close> here, since \<open>id\<close> is the
  identity function of HOL.
\<close>

record InventoryItem =
  idStr :: jsstring
  branch :: jsstring
  category :: jsstring
  item :: jsstring
  qty :: number

text \<open>\<^verbatim>\<open>h.trim().replace(/^"|"$/g, '')\<close>, applied to header, name and quantity cells.\<close>

definition cleanCell :: "jsstring \<Rightarrow> jsstring" where
  "cleanCell h = stripQuotes (trim h)"

text \<open>The test of \<open>headers.forEach\<close> that makes a column a branch column.\<close>

definition isBranchHeader :: "jsstring \<Rightarrow> bool" where
  "isBranchHeader name \<longleftrightarrow>
     name \<noteq> [] \<and> \<not> includesStr name (str ''Total'') \<and> \<not> includesStr name (str ''Tracking'')
     \<and> \<not> includesStr name (str ''List'') \<and> \<not> includesStr name (str ''No.'')"

text \<open>\<open>branchSet.add(name)\<close>: a \<open>Set\<close> keeps the first insertion of a member.\<close>

definition setAdd :: "jsstring \<Rightarrow> jsstring list \<Rightarrow> jsstring list" where
  "setAdd name branchSet = (if name \<in> set branchSet then branchSet else branchSet @ [name])"

text \<open>
  \<open>headers.forEach((h, index) => ...)\<close>, threading \<open>branchSet\<close> and \<open>branchIndices\<close>. The
  object \<open>branchIndices\<close> has one entry for each registered column index; \<open>Object.entries\<close>
  lists integer keys in ascending order, which is the order in which they are added
  here, so the object is the list of its entries.
\<close>

fun registerHeaders ::
  "nat \<Rightarrow> jsstring list \<Rightarrow> jsstring list \<times> (nat \<times> jsstring) list
     \<Rightarrow> jsstring list \<times> (nat \<times> jsstring) list" where
  "registerHeaders index [] acc = acc"
| "registerHeaders index (h # hs) (branchSet, branchIndices) =
     (let name = cleanCell h
      in if isBranchHeader name
         then registerHeaders (index + 1) hs (setAdd name branchSet, branchIndices @ [(index, name)])
         else registerHeaders (index + 1) hs (branchSet, branchIndices))"

text \<open>
  The first loop: the header is the first line that includes \<open>Head Office\<close>. The result
  is that line and the lines after it, or \<open>None\<close> when \<open>headerIndex\<close> stays \<open>-1\<close>.
\<close>

fun findHeader :: "jsstring list \<Rightarrow> (jsstring \<times> jsstring list) option" where
  "findHeader [] = None"
| "findHeader (l # ls) =
     (if includesStr l (str ''Head Office'') then Some (l, ls) else findHeader ls)"

text \<open>
  \<open>row[index] || dflt\<close>: an index outside the row gives \<open>undefined\<close> and an empty cell
  is the empty string; both are falsy.
\<close>

definition cellOr :: "jsstring list \<Rightarrow> nat \<Rightarrow> jsstring \<Rightarrow> jsstring" where
  "cellOr row index dflt =
     (if index < length row \<and> row ! index \<noteq> [] then row ! index else dflt)"

text \<open>\<^verbatim>\<open>`${branchName}_${itemName}`.replace(/\s+/g, '_')\<close>\<close>

definition makeId :: "jsstring \<Rightarrow> jsstring \<Rightarrow> jsstring" where
  "makeId branchName itemName = collapseSpaces (branchName @ [95] @ itemName)"

text \<open>The quantity read from the cell of one branch column.\<close>

definition cellQty :: "jsstring list \<Rightarrow> nat \<Rightarrow> number" where
  "cellQty row index = parseInt (cleanCell (cellOr row index (str ''0'')))"

text \<open>The inner loop over \<open>Object.entries(branchIndices)\<close>, pushing onto \<open>parsedData\<close>.\<close>

fun scanRow ::
  "jsstring \<Rightarrow> jsstring \<Rightarrow> jsstring list \<Rightarrow> (nat \<times> jsstring) list
     \<Rightarrow> InventoryItem list \<Rightarrow> InventoryItem list" where
  "scanRow categoryName itemName row [] parsedData = parsedData"
| "scanRow categoryName itemName row ((index, branchName) # entries) parsedData =
     (let qty = cellQty row index
      in if \<not> isNaN qty \<and> greaterThanZero qty
         then scanRow categoryName itemName row entries
                (parsedData @ [\<lparr>idStr = makeId branchName itemName, branch = branchName,
                                category = categoryName, item = itemName, qty = qty\<rparr>])
         else scanRow categoryName itemName row entries parsedData)"

text \<open>The item name of a row: \<^verbatim>\<open>(row[1] || row[0] || "").trim().replace(/^"|"$/g, '')\<close>\<close>

definition rowItemName :: "jsstring list \<Rightarrow> jsstring" where
  "rowItemName row = cleanCell (cellOr row 1 (cellOr row 0 []))"

text \<open>The two \<open>continue\<close> tests of the second loop.\<close>

definition skippedRow :: "jsstring list \<Rightarrow> bool" where
  "skippedRow row \<longleftrightarrow>
     length row < 5 \<or> rowItemName row = []
     \<or> startsWith (rowItemName row) (str ''Total'')
     \<or> startsWith (rowItemName row) (str ''Tracking'')"

text \<open>The second loop, over the lines after the header.\<close>

fun scanLines ::
  "jsstring \<Rightarrow> (nat \<times> jsstring) list \<Rightarrow> jsstring list
     \<Rightarrow> InventoryItem list \<Rightarrow> InventoryItem list" where
  "scanLines categoryName branchIndices [] parsedData = parsedData"
| "scanLines categoryName branchIndices (line # rest) parsedData =
     (let row = js_split 44 line
      in if skippedRow row then scanLines categoryName branchIndices rest parsedData
         else scanLines categoryName branchIndices rest
                (scanRow categoryName (rowItemName row) row branchIndices parsedData))"

text \<open>
  \<open>parseCSV\<close>. The function returns \<open>parsedData\<close> and mutates the \<open>Set\<close> it is given; the
  model returns both. The two early returns leave the set as it was.
\<close>

definition parseCSV ::
  "jsstring \<Rightarrow> jsstring \<Rightarrow> jsstring list \<Rightarrow> InventoryItem list \<times> jsstring list" where
  "parseCSV csvText categoryName branchSet =
     (if csvText = [] then ([], branchSet)
      else case findHeader (js_split 10 (trim csvText)) of
             None \<Rightarrow> ([], branchSet)
           | Some (header, rest) \<Rightarrow>
               (let (branchSet', branchIndices) =
                      registerHeaders 0 (js_split 44 header) (branchSet, [])
                in (scanLines categoryName branchIndices rest [], branchSet')))"

section \<open>The state of the tracking component\<close>

text \<open>
  The \<open>useState\<close> cells of \<open>PopTracking\<close> that the handlers read or write, together with
  the browser's \<open>localStorage\<close>, the durable store. The type \<open>'f\<close> is the type of the
  attached \<open>File\<close> objects. \<open>checkedItems\<close> is a \<^verbatim>\<open>Record<string, boolean>\<close>: an object
  used as a dictionary, which after a toggle can hold \<open>false\<close> as well as \<open>true\<close>. The
  map holds the object's own properties; what a read finds beyond them is described
  with \<open>isChecked\<close> below.
\<close>

record 'f AppState =
  database :: "InventoryItem list"
  selectedBranch :: jsstring
  selectedCategory :: jsstring
  selectedDate :: jsstring
  checkedItems :: "jsstring \<rightharpoonup> bool"
  reportNote :: jsstring
  selectedFiles :: "'f list"
  isDefectMode :: bool
  isSubmitting :: bool
  localStorage :: "jsstring \<rightharpoonup> jsstring"

text \<open>
  The names of the properties that a plain object inherits from \<open>Object.prototype\<close>. Each
  of them is read as a function, or as the prototype object in the case of \<open>__proto__\<close>:
  a truthy value.
\<close>

definition objectPrototypeKeys :: "jsstring list" where
  "objectPrototypeKeys =
     [str ''constructor'', str ''hasOwnProperty'', str ''isPrototypeOf'',
      str ''propertyIsEnumerable'', str ''toLocaleString'', str ''toString'', str ''valueOf'',
      str ''__proto__'', str ''__defineGetter__'', str ''__defineSetter__'',
      str ''__lookupGetter__'', str ''__lookupSetter__'']"

text \<open>
  \<open>checkedItems[id]\<close> read as a condition. An own property decides by its value; without
  an own property the read goes to the prototype, where a missing name gives \<open>undefined\<close>
  and an inherited name a truthy value.
\<close>

definition isChecked :: "(jsstring \<rightharpoonup> bool) \<Rightarrow> jsstring \<Rightarrow> bool" where
  "isChecked checked i \<longleftrightarrow>
     (case checked i of Some v \<Rightarrow> v | None \<Rightarrow> i \<in> set objectPrototypeKeys)"

text \<open>\<^verbatim>\<open>'pop_check_' + id\<close>\<close>

definition storageKey :: "jsstring \<Rightarrow> jsstring" where
  "storageKey i = str ''pop_check_'' @ i"

text \<open>
  The start-up effect: for every key of \<open>localStorage\<close> that starts with \<open>pop_check_\<close>, the
  rest of the key is assigned \<open>true\<close> in a fresh object, whatever the stored value is. The
  assignment \<^verbatim>\<open>savedChecks[id] = true\<close> makes an own property, except for the id
  \<open>__proto__\<close>, where it calls the inherited setter, which ignores a value that is not an
  object.
\<close>

definition loadSavedChecks :: "(jsstring \<rightharpoonup> jsstring) \<Rightarrow> (jsstring \<rightharpoonup> bool)" where
  "loadSavedChecks storage =
     (\<lambda>i. if storage (storageKey i) = None \<or> i = str ''__proto__'' then None else Some True)"

text \<open>The messages shown with \<open>alert\<close>, one constructor for each message of the source.\<close>

datatype alert =
    AlertDateRequired
  | AlertSelectBranch
  | AlertSelectDate
  | AlertMissingNeedsEvidence
  | AlertDefectNeedsNote
  | AlertDefectNeedsMedia
  | AlertCompleteNeedsMedia
  | AlertSavedMissing "jsstring list"
  | AlertSavedDefect
  | AlertSavedComplete
  | AlertSendError

text \<open>
  \<open>handleToggleCheck\<close>. Without a date the handler warns and returns. Otherwise the
  updater writes the negated reading under the id and mirrors it in the store: the
  key is set to \<open>'true'\<close> when the id becomes checked and removed when it becomes
  unchecked. The computed key of the object literal always makes an own property, also
  for the id \<open>__proto__\<close>.
\<close>

definition handleToggleCheck :: "jsstring \<Rightarrow> 'f AppState \<Rightarrow> alert option \<times> 'f AppState" where
  "handleToggleCheck i s =
     (if selectedDate s = [] then (Some AlertDateRequired, s)
      else let newValue = \<not> isChecked (checkedItems s) i
           in (None,
               s\<lparr>checkedItems := (checkedItems s)(i \<mapsto> newValue),
                 localStorage :=
                   (if newValue then (localStorage s)(storageKey i \<mapsto> str ''true'')
                    else (localStorage s)(storageKey i := None))\<rparr>))"

text \<open>The memo \<open>filteredData\<close>.\<close>

definition filteredData :: "'f AppState \<Rightarrow> InventoryItem list" where
  "filteredData s =
     (if selectedBranch s = [] then []
      else let data = filter (\<lambda>d. branch d = selectedBranch s) (database s)
           in if selectedCategory s \<noteq> str ''all''
              then filter (\<lambda>d. category d = selectedCategory s) data
              else data)"

section \<open>Submission (handleSubmit)\<close>

text \<open>
  \<open>interface SubmitPayload\<close>, with fields \<open>branch\<close>, \<open>date\<close>, \<open>note\<close>, \<open>images\<close> and
  \<open>missingItems\<close>; each field name carries the prefix \<open>payload\<close> here.
\<close>

record SubmitPayload =
  payloadBranch :: jsstring
  payloadDate :: jsstring
  payloadNote :: jsstring
  payloadImages :: "jsstring list"
  payloadMissingItems :: jsstring

text \<open>
  One line of \<open>missingList\<close>: a space, the item name, and the quantity in brackets after
  the Thai word for "amount" (units U+0E08 U+0E33 U+0E19 U+0E27 U+0E19).
\<close>

definition missingLine :: "(int \<Rightarrow> jsstring) \<Rightarrow> InventoryItem \<Rightarrow> jsstring" where
  "missingLine exponential it =
     str '' '' @ item it @ str '' ('' @ [3592, 3635, 3609, 3623, 3609] @ str '': ''
       @ numberToString exponential (qty it) @ str '')''"

text \<open>
  The note of a complete reception, \<open>Received All (...)\<close> with the Thai phrase
  U+0E23 U+0E31 U+0E1A U+0E04 U+0E23 U+0E1A U+0E16 U+0E49 U+0E27 U+0E19 in the brackets.
\<close>

definition receivedAllNote :: jsstring where
  "receivedAllNote =
     str ''Received All ('' @ [3619, 3633, 3610, 3588, 3619, 3610, 3606, 3657, 3623, 3609]
       @ str '')''"

text \<open>
  What one call of \<open>handleSubmit\<close> did: it returned at a validation alert; or it posted
  the payload and showed the success message; or the \<open>try\<close> block threw, before a
  payload existed (an attachment could not be read) or at the \<open>fetch\<close> of the payload.
\<close>

datatype outcome =
    Rejected alert
  | Dispatched SubmitPayload alert
  | DispatchFailed "SubmitPayload option"


text \<open>The items of the selected branch, in every category.\<close>

definition allBranchItems :: "'f AppState \<Rightarrow> InventoryItem list" where
  "allBranchItems s = filter (\<lambda>d. branch d = selectedBranch s) (database s)"

text \<open>
  \<open>missingList\<close> in its two steps: the \<open>filter\<close>, which keeps the items of the branch whose
  id does not read as checked, and the \<open>map\<close> to their lines. \<open>isMissing\<close> is
  \<^verbatim>\<open>missingList.length > 0\<close>; the \<open>map\<close> keeps the length of the filtered list.
\<close>

definition uncheckedItems :: "'f AppState \<Rightarrow> InventoryItem list" where
  "uncheckedItems s =
     filter (\<lambda>it. \<not> isChecked (checkedItems s) (idStr it)) (allBranchItems s)"

definition missingList :: "(int \<Rightarrow> jsstring) \<Rightarrow> 'f AppState \<Rightarrow> jsstring list" where
  "missingList exponential s = map (missingLine exponential) (uncheckedItems s)"

definition isMissing :: "'f AppState \<Rightarrow> bool" where
  "isMissing s \<longleftrightarrow> length (uncheckedItems s) > 0"

text \<open>The block under \<open>// Validation Logic\<close>: the alert that stops the submission, if any.\<close>

definition validationAlert :: "'f AppState \<Rightarrow> alert option" where
  "validationAlert s =
     (if isMissing s
      then (if reportNote s = [] \<and> length (selectedFiles s) = 0
            then Some AlertMissingNeedsEvidence else None)
      else if isDefectMode s
      then (if reportNote s = [] then Some AlertDefectNeedsNote
            else if length (selectedFiles s) = 0 then Some AlertDefectNeedsMedia
            else None)
      else (if length (selectedFiles s) = 0 then Some AlertCompleteNeedsMedia else None))"

text \<open>The \<open>forEach\<close> of the cleanup, on the copy of \<open>checkedItems\<close> and on the store.\<close>

fun clearItems ::
  "InventoryItem list \<Rightarrow> (jsstring \<rightharpoonup> bool) \<times> (jsstring \<rightharpoonup> jsstring)
     \<Rightarrow> (jsstring \<rightharpoonup> bool) \<times> (jsstring \<rightharpoonup> jsstring)" where
  "clearItems [] acc = acc"
| "clearItems (it # its) (newCheckedState, storage) =
     clearItems its (newCheckedState(idStr it := None), storage(storageKey (idStr it) := None))"

text \<open>The message after a successful post.\<close>

definition successAlert :: "(int \<Rightarrow> jsstring) \<Rightarrow> 'f AppState \<Rightarrow> alert" where
  "successAlert exponential s =
     (if isMissing s then AlertSavedMissing (missingList exponential s)
      else if isDefectMode s then AlertSavedDefect
      else AlertSavedComplete)"

text \<open>The payload built in the \<open>try\<close> block from the encoded attachments.\<close>

definition buildPayload ::
  "(int \<Rightarrow> jsstring) \<Rightarrow> 'f AppState \<Rightarrow> jsstring list \<Rightarrow> SubmitPayload" where
  "buildPayload exponential s mediaBase64 =
     (let missingString = (if isMissing s then js_join [10] (missingList exponential s)
                           else str ''-'');
          finalNote = (if \<not> isMissing s \<and> \<not> isDefectMode s then receivedAllNote
                       else reportNote s)
      in \<lparr>payloadBranch = selectedBranch s, payloadDate = selectedDate s,
          payloadNote = finalNote, payloadImages = mediaBase64,
          payloadMissingItems = missingString\<rparr>)"

text \<open>The block under \<open>// Cleanup\<close>, followed by the \<open>finally\<close> clause.\<close>

definition cleanup :: "'f AppState \<Rightarrow> 'f AppState" where
  "cleanup s =
     (let (newCheckedState, storage) =
            clearItems (allBranchItems s) (checkedItems s, localStorage s)
      in s\<lparr>reportNote := [], selectedFiles := [], isDefectMode := False,
           checkedItems := newCheckedState, localStorage := storage,
           isSubmitting := False\<rparr>)"

text \<open>
  The \<open>try\<close> / \<open>catch\<close> / \<open>finally\<close> of \<open>handleSubmit\<close>. The collaborators are
  parameters: \<open>exponential\<close>, the text of a very large number; \<open>toBase64\<close>, which reads an
  attachment (\<open>None\<close> when its promise rejects, which makes \<open>Promise.all\<close> reject); and
  \<open>fetch\<close>, which tells whether the post of a payload resolves (\<open>True\<close>) or throws.
  \<open>isSubmitting\<close> is set before the block and reset after it.
\<close>

definition trySubmit ::
  "(int \<Rightarrow> jsstring) \<Rightarrow> ('f \<Rightarrow> jsstring option) \<Rightarrow> (SubmitPayload \<Rightarrow> bool)
     \<Rightarrow> 'f AppState \<Rightarrow> outcome \<times> 'f AppState" where
  "trySubmit exponential toBase64 fetch s =
     (case those (map toBase64 (selectedFiles s)) of
        None \<Rightarrow> (DispatchFailed None, s\<lparr>isSubmitting := False\<rparr>)
      | Some mediaBase64 \<Rightarrow>
          if fetch (buildPayload exponential s mediaBase64)
          then (Dispatched (buildPayload exponential s mediaBase64)
                  (successAlert exponential s), cleanup s)
          else (DispatchFailed (Some (buildPayload exponential s mediaBase64)),
                s\<lparr>isSubmitting := False\<rparr>))"

text \<open>\<open>handleSubmit\<close>: the two selection checks, the validation, then the \<open>try\<close> block.\<close>

definition handleSubmit ::
  "(int \<Rightarrow> jsstring) \<Rightarrow> ('f \<Rightarrow> jsstring option) \<Rightarrow> (SubmitPayload \<Rightarrow> bool)
     \<Rightarrow> 'f AppState \<Rightarrow> outcome \<times> 'f AppState" where
  "handleSubmit exponential toBase64 fetch s =
     (if selectedBranch s = [] then (Rejected AlertSelectBranch, s)
      else if selectedDate s = [] then (Rejected AlertSelectDate, s)
      else case validationAlert s of
             Some a \<Rightarrow> (Rejected a, s)
           | None \<Rightarrow> trySubmit exponential toBase64 fetch s)"

section \<open>Progress (the memo progress)\<close>



section \<open>The ingestion described cell by cell\<close>

text \<open>
  The loops of \<open>parseCSV\<close> are compared below with this description: the header line and
  the lines after it; the branch columns of the header, each with its index; what one
  cell of a branch column contributes to the catalog; and what one line contributes.
\<close>

definition headerAndRows :: "jsstring \<Rightarrow> (jsstring \<times> jsstring list) option" where
  "headerAndRows csvText =
     (if csvText = [] then None else findHeader (js_split 10 (trim csvText)))"

definition branchColumns :: "jsstring \<Rightarrow> (nat \<times> jsstring) list" where
  "branchColumns header =
     filter (\<lambda>e. isBranchHeader (snd e)) (enumerate 0 (map cleanCell (js_split 44 header)))"

definition cellItems ::
  "jsstring \<Rightarrow> jsstring \<Rightarrow> jsstring list \<Rightarrow> nat \<times> jsstring \<Rightarrow> InventoryItem list" where
  "cellItems categoryName itemName row e =
     (if \<not> isNaN (cellQty row (fst e)) \<and> greaterThanZero (cellQty row (fst e))
      then [\<lparr>idStr = makeId (snd e) itemName, branch = snd e, category = categoryName,
              item = itemName, qty = cellQty row (fst e)\<rparr>]
      else [])"

definition rowItems ::
  "jsstring \<Rightarrow> (nat \<times> jsstring) list \<Rightarrow> jsstring \<Rightarrow> InventoryItem list" where
  "rowItems categoryName columns line =
     (if skippedRow (js_split 44 line) then []
      else concat (map (cellItems categoryName (rowItemName (js_split 44 line))
                          (js_split 44 line)) columns))"

section \<open>Example data\<close>

text \<open>A small catalog and a state of the component, used to instantiate the theorems.\<close>

definition exampleCatalog :: "InventoryItem list" where
  "exampleCatalog =
     [\<lparr>idStr = str ''Siam_Poster'', branch = str ''Siam'', category = str ''RE-Brand'',
        item = str ''Poster'', qty = Finite 2\<rparr>,
      \<lparr>idStr = str ''Siam_Banner'', branch = str ''Siam'', category = str ''RE-System'',
        item = str ''Banner'', qty = Finite 1\<rparr>,
      \<lparr>idStr = str ''Phuket_Poster'', branch = str ''Phuket'', category = str ''RE-Brand'',
        item = str ''Poster'', qty = Finite 4\<rparr>]"

definition exampleState :: "unit AppState" where
  "exampleState =
     \<lparr>database = exampleCatalog, selectedBranch = str ''Siam'', selectedCategory = str ''all'',
      selectedDate = str ''2026-01-15'',
      checkedItems = [str ''Siam_Poster'' \<mapsto> True, str ''Phuket_Poster'' \<mapsto> True],
      reportNote = str ''Banner not delivered'', selectedFiles = [], isDefectMode = False,
      isSubmitting = False,
      localStorage = [storageKey (str ''Siam_Poster'') \<mapsto> str ''true'',
                      storageKey (str ''Phuket_Poster'') \<mapsto> str ''true'']\<rparr>"

text \<open>Collaborators: every attachment is read; the post resolves, or throws.\<close>

definition readsAll :: "unit \<Rightarrow> jsstring option" where
  "readsAll f = Some (str ''data:image/png;base64,AAAA'')"

definition postResolves :: "SubmitPayload \<Rightarrow> bool" where
  "postResolves p = True"

definition postThrows :: "SubmitPayload \<Rightarrow> bool" where
  "postThrows p = False"

text \<open>A stand-in for the exponential notation, which no quantity of the examples needs.\<close>

definition sciText :: "int \<Rightarrow> jsstring" where
  "sciText v = str ''1e+21''"

text \<open>
  A sheet in which two branches share an id: the item \<open>Square Poster\<close> of branch \<open>Siam\<close>
  and the item \<open>Poster\<close> of branch \<open>Siam Square\<close> both get the id \<open>Siam_Square_Poster\<close>.
  In \<open>collisionState\<close> that id is checked, the branch \<open>Siam\<close> is selected and one photo is
  attached.
\<close>

definition collisionCsv :: jsstring where
  "collisionCsv = str ''No.,List,Head Office,Siam,Siam Square'' @ [10]
      @ str ''1,Square Poster,0,2,0'' @ [10] @ str ''2,Poster,0,0,4''"

definition collisionCatalog :: "InventoryItem list" where
  "collisionCatalog = fst (parseCSV collisionCsv (str ''RE-Brand'') [])"

definition collisionItem :: InventoryItem where
  "collisionItem =
     \<lparr>idStr = str ''Siam_Square_Poster'', branch = str ''Siam Square'',
      category = str ''RE-Brand'', item = str ''Poster'', qty = Finite 4\<rparr>"

definition collisionState :: "unit AppState" where
  "collisionState =
     \<lparr>database = collisionCatalog, selectedBranch = str ''Siam'', selectedCategory = str ''all'',
      selectedDate = str ''2026-01-15'',
      checkedItems = [str ''Siam_Square_Poster'' \<mapsto> True],
      reportNote = [], selectedFiles = [()], isDefectMode = False, isSubmitting = False,
      localStorage = [storageKey (str ''Siam_Square_Poster'') \<mapsto> str ''true'']\<rparr>"

text \<open>
  The sheet of the worked example: the tail of its header line after the two leading
  columns, and its data row.
\<close>

definition widgetHeaderTail :: jsstring where
  "widgetHeaderTail = str '',Head Office,BranchA,BranchB,Total''"

definition widgetRow :: jsstring where
  "widgetRow = str ''1,Widget,0,5,3,8''"



text \<open>
  The state after the start-up effect over a given durable store: the check state is
  loaded from the store, the date is set, the example catalog is loaded and the branch
  \<open>Siam\<close> is chosen. \<open>freshStore\<close> is the empty store of a first visit; \<open>foreignStore\<close>
  holds a check key whose value is not \<open>'true'\<close>.
\<close>

definition startUp :: "(jsstring \<rightharpoonup> jsstring) \<Rightarrow> unit AppState" where
  "startUp storage =
     \<lparr>database = exampleCatalog, selectedBranch = str ''Siam'', selectedCategory = str ''all'',
      selectedDate = str ''2026-01-15'', checkedItems = loadSavedChecks storage,
      reportNote = [], selectedFiles = [], isDefectMode = False, isSubmitting = False,
      localStorage = storage\<rparr>"

definition freshStore :: "jsstring \<rightharpoonup> jsstring" where
  "freshStore = Map.empty"

definition foreignStore :: "jsstring \<rightharpoonup> jsstring" where
  "foreignStore = [storageKey (str ''Siam_Poster'') \<mapsto> str ''1'']"

text \<open>
  A catalog whose only item has the id \<open>__proto__\<close>, as the ingestion produces it for the
  item \<open>_\<close> of a branch \<open>__proto\<close>, and a state in which that branch is selected, a note
  is written, no file is attached and nothing was ever checked.
\<close>

definition protoItem :: InventoryItem where
  "protoItem =
     \<lparr>idStr = str ''__proto__'', branch = str ''__proto'', category = str ''RE-Brand'',
      item = str ''_'', qty = Finite 1\<rparr>"

definition nothingChecked :: "jsstring \<rightharpoonup> bool" where
  "nothingChecked = Map.empty"

definition protoState :: "unit AppState" where
  "protoState =
     \<lparr>database = [protoItem], selectedBranch = str ''__proto'', selectedCategory = str ''all'',
      selectedDate = str ''2026-01-15'', checkedItems = nothingChecked,
      reportNote = str ''Nothing arrived'', selectedFiles = [], isDefectMode = False,
      isSubmitting = False, localStorage = freshStore\<rparr>"

text \<open>
  Sheets for the quantity rule. \<open>quotedSheet\<close> starts with a title line; its header has
  the label \<open>Head Office\<close> in quotes; its rows hold a quoted \<open>5\<close>, the cells \<open>12abc\<close>, \<open>0\<close>,
  \<open>abc\<close>, \<open>1.9\<close> and an empty cell, a totals row and a row of three cells.
  \<open>fractionSheet\<close> has a row with the cells \<open>1.9\<close> and \<open>12abc\<close>. \<open>shortSheet\<close> has four
  columns, the head office expecting two units.
\<close>

definition quotedTitle :: jsstring where
  "quotedTitle = str ''POP delivery plan''"

definition quotedHeader :: jsstring where
  "quotedHeader = str ''No.,List,'' @ [34] @ str ''Head Office'' @ [34] @ str '',BranchA,BranchB,Total''"

definition quotedRows :: "jsstring list" where
  "quotedRows =
     [str ''1,Widget,'' @ [34] @ str ''5'' @ [34] @ str '',12abc,0,17'',
      str ''2,Stand,abc,,1.9,1'',
      str ''Total,,5,12,1,18'',
      str ''3,Flag,4'']"

definition quotedSheet :: jsstring where
  "quotedSheet = js_join [10] (quotedTitle # quotedHeader # quotedRows)"

definition fractionSheet :: jsstring where
  "fractionSheet = str ''No.,List,Head Office,BranchA,BranchB'' @ [10] @ str ''1,Widget,0,1.9,12abc''"

definition shortSheet :: jsstring where
  "shortSheet = str ''No.,List,Head Office,BranchA'' @ [10] @ str ''1,Widget,2,5''"







section \<open>The words of the specification\<close>

text \<open>
  Two notions that the specification uses and the source does not define, written out
  from the words of the specification to compare the code with them. A quantity is "a
  valid integer": an optional sign followed by decimal digits and nothing else. The
  percentage is "the rounded integer percentage of count / total": the integer nearest
  to \<open>100 * count / total\<close>, the upper one of two that are equally near, and \<open>0\<close> when
  total is \<open>0\<close>.
\<close>

fun decimalDigits :: "jsstring \<Rightarrow> bool" where
  "decimalDigits [] \<longleftrightarrow> True"
| "decimalDigits (c # cs) \<longleftrightarrow> 48 \<le> c \<and> c \<le> 57 \<and> decimalDigits cs"

definition specValidInteger :: "jsstring \<Rightarrow> bool" where
  "specValidInteger s \<longleftrightarrow>
     (let d = (if s \<noteq> [] \<and> (hd s = 43 \<or> hd s = 45) then tl s else s)
      in d \<noteq> [] \<and> decimalDigits d)"


section \<open>Properties of the branch resolver\<close>

lemma toLowerCase_no_upper:
  "c \<in> set (toLowerCase s) \<Longrightarrow> \<not> (65 \<le> c \<and> c \<le> 90)"
  by (auto simp: toLowerCase_def toLowerCaseUnit_def split: if_splits)

lemma normalizeBranchKey_classes:
  "normalizeBranchKey s =
     filter (\<lambda>c. asciiLetter c \<or> asciiDigit c \<or> thaiUnit c) (toLowerCase s)"
  unfolding normalizeBranchKey_def
proof (rule filter_cong [OF refl])
  fix c assume "c \<in> set (toLowerCase s)"
  then have "\<not> (65 \<le> c \<and> c \<le> 90)" by (rule toLowerCase_no_upper)
  then show "keyUnit c = (asciiLetter c \<or> asciiDigit c \<or> thaiUnit c)"
    by (auto simp: keyUnit_def asciiLetter_def asciiDigit_def thaiUnit_def)
qed

lemma scanCanonical_Some_iff:
  "scanCanonical k cs = Some c \<longleftrightarrow>
     (\<exists>pre post. cs = pre @ c # post \<and> normalizeBranchKey c = k
        \<and> (\<forall>d \<in> set pre. normalizeBranchKey d \<noteq> k))"
proof (induction cs)
  case Nil
  show ?case by simp
next
  case (Cons a cs)
  show ?case
  proof (cases "normalizeBranchKey a = k")
    case True
    have "(\<exists>pre post. a # cs = pre @ c # post \<and> normalizeBranchKey c = k
        \<and> (\<forall>d \<in> set pre. normalizeBranchKey d \<noteq> k)) \<longleftrightarrow> a = c" (is "?L \<longleftrightarrow> _")
    proof
      assume ?L
      then obtain pre post where s: "a # cs = pre @ c # post"
        and p: "\<forall>d \<in> set pre. normalizeBranchKey d \<noteq> k" by blast
      show "a = c"
      proof (cases pre)
        case Nil
        with s show ?thesis by simp
      next
        case (Cons b pre')
        with s have "b = a" by simp
        with Cons p True show ?thesis by simp
      qed
    next
      assume "a = c"
      with True have "a # cs = [] @ c # cs \<and> normalizeBranchKey c = k
        \<and> (\<forall>d \<in> set []. normalizeBranchKey d \<noteq> k)" by simp
      then show ?L by blast
    qed
    with True show ?thesis by simp
  next
    case False
    have "(\<exists>pre post. a # cs = pre @ c # post \<and> normalizeBranchKey c = k
        \<and> (\<forall>d \<in> set pre. normalizeBranchKey d \<noteq> k)) \<longleftrightarrow>
       (\<exists>pre post. cs = pre @ c # post \<and> normalizeBranchKey c = k
        \<and> (\<forall>d \<in> set pre. normalizeBranchKey d \<noteq> k))" (is "?L \<longleftrightarrow> ?R")
    proof
      assume ?L
      then obtain pre post where s: "a # cs = pre @ c # post" and c: "normalizeBranchKey c = k"
        and p: "\<forall>d \<in> set pre. normalizeBranchKey d \<noteq> k" by blast
      show ?R
      proof (cases pre)
        case Nil
        with s have "a = c" by simp
        with c False show ?thesis by simp
      next
        case (Cons b pre')
        with s have "cs = pre' @ c # post" by simp
        moreover from Cons p have "\<forall>d \<in> set pre'. normalizeBranchKey d \<noteq> k" by simp
        ultimately show ?thesis using c by blast
      qed
    next
      assume ?R
      then obtain pre post where s: "cs = pre @ c # post" and c: "normalizeBranchKey c = k"
        and p: "\<forall>d \<in> set pre. normalizeBranchKey d \<noteq> k" by blast
      from s have "a # cs = (a # pre) @ c # post" by simp
      moreover from p False have "\<forall>d \<in> set (a # pre). normalizeBranchKey d \<noteq> k" by simp
      ultimately show ?L using c by blast
    qed
    with False Cons.IH show ?thesis by simp
  qed
qed

lemma scanCanonical_None_iff:
  "scanCanonical k cs = None \<longleftrightarrow> (\<forall>c \<in> set cs. normalizeBranchKey c \<noteq> k)"
  by (induction cs) simp_all

lemma scanCanonical_unique:
  assumes "c \<in> set cs" and "normalizeBranchKey c = k"
    and "\<forall>d \<in> set cs. normalizeBranchKey d = k \<longrightarrow> d = c"
  shows "scanCanonical k cs = Some c"
  using assms
proof (induction cs)
  case Nil
  then show ?case by simp
next
  case (Cons a cs)
  show ?case
  proof (cases "normalizeBranchKey a = k")
    case True
    with Cons.prems(3) have "a = c" by simp
    with True show ?thesis by simp
  next
    case False
    with Cons.prems(1,2) have "c \<in> set cs" by auto
    moreover from Cons.prems(3)
    have "\<forall>d \<in> set cs. normalizeBranchKey d = k \<longrightarrow> d = c" by simp
    ultimately have "scanCanonical k cs = Some c" using Cons.IH Cons.prems(2) by blast
    with False show ?thesis by simp
  qed
qed

lemma key_Bangkok_Branch: "normalizeBranchKey (str ''Bangkok Branch '') = str ''bangkokbranch''"
  by (simp add: normalizeBranchKey_def toLowerCase_def toLowerCaseUnit_def keyUnit_def str_def)

lemma key_bangkok_branch: "normalizeBranchKey (str ''bangkok-branch'') = str ''bangkokbranch''"
  by (simp add: normalizeBranchKey_def toLowerCase_def toLowerCaseUnit_def keyUnit_def str_def)

text \<open>
  Claim C7. \<open>resolveCanonicalBranch\<close> returns the first member, in the iteration order of
  the canonical set, whose normalised key equals the normalised key of the raw label: the
  members before it all have another key. It returns \<open>null\<close> exactly when the raw label is
  empty or no member has the key. \<open>normalizeBranchKey\<close> is the lower-cased argument with
  every unit removed that is not an ASCII letter, an ASCII digit or a unit of the Thai
  block. The labels \<open>"Bangkok Branch "\<close> and \<open>"bangkok-branch"\<close> have the same key, and each of
  them is resolved to the other when the other is the member of the canonical set with
  that key.
\<close>

theorem resolveCanonicalBranch_first_match:
  "(resolveCanonicalBranch raw cs = Some c \<longleftrightarrow>
      raw \<noteq> [] \<and>
      (\<exists>pre post. cs = pre @ c # post
         \<and> normalizeBranchKey c = normalizeBranchKey raw
         \<and> (\<forall>d \<in> set pre. normalizeBranchKey d \<noteq> normalizeBranchKey raw)))
   \<and> (resolveCanonicalBranch raw cs = None \<longleftrightarrow>
      raw = [] \<or> (\<forall>d \<in> set cs. normalizeBranchKey d \<noteq> normalizeBranchKey raw))
   \<and> normalizeBranchKey s =
        filter (\<lambda>u. asciiLetter u \<or> asciiDigit u \<or> thaiUnit u) (toLowerCase s)
   \<and> normalizeBranchKey (str ''Bangkok Branch '') = normalizeBranchKey (str ''bangkok-branch'')
   \<and> (str ''bangkok-branch'' \<in> set cs
        \<and> (\<forall>d \<in> set cs. normalizeBranchKey d = normalizeBranchKey (str ''bangkok-branch'')
              \<longrightarrow> d = str ''bangkok-branch'')
      \<longrightarrow> resolveCanonicalBranch (str ''Bangkok Branch '') cs = Some (str ''bangkok-branch''))
   \<and> (str ''Bangkok Branch '' \<in> set cs
        \<and> (\<forall>d \<in> set cs. normalizeBranchKey d = normalizeBranchKey (str ''Bangkok Branch '')
              \<longrightarrow> d = str ''Bangkok Branch '')
      \<longrightarrow> resolveCanonicalBranch (str ''bangkok-branch'') cs = Some (str ''Bangkok Branch ''))"
proof (intro conjI)
  show "resolveCanonicalBranch raw cs = Some c \<longleftrightarrow>
      raw \<noteq> [] \<and>
      (\<exists>pre post. cs = pre @ c # post
         \<and> normalizeBranchKey c = normalizeBranchKey raw
         \<and> (\<forall>d \<in> set pre. normalizeBranchKey d \<noteq> normalizeBranchKey raw))"
    by (cases "raw = []") (simp_all add: resolveCanonicalBranch_def scanCanonical_Some_iff)
  show "resolveCanonicalBranch raw cs = None \<longleftrightarrow>
      raw = [] \<or> (\<forall>d \<in> set cs. normalizeBranchKey d \<noteq> normalizeBranchKey raw)"
    by (cases "raw = []") (simp_all add: resolveCanonicalBranch_def scanCanonical_None_iff)
  show "normalizeBranchKey s =
        filter (\<lambda>u. asciiLetter u \<or> asciiDigit u \<or> thaiUnit u) (toLowerCase s)"
    by (rule normalizeBranchKey_classes)
  show "normalizeBranchKey (str ''Bangkok Branch '') = normalizeBranchKey (str ''bangkok-branch'')"
    by (simp only: key_Bangkok_Branch key_bangkok_branch)
  show "str ''bangkok-branch'' \<in> set cs
        \<and> (\<forall>d \<in> set cs. normalizeBranchKey d = normalizeBranchKey (str ''bangkok-branch'')
              \<longrightarrow> d = str ''bangkok-branch'')
      \<longrightarrow> resolveCanonicalBranch (str ''Bangkok Branch '') cs = Some (str ''bangkok-branch'')"
  proof
    assume h: "str ''bangkok-branch'' \<in> set cs
        \<and> (\<forall>d \<in> set cs. normalizeBranchKey d = normalizeBranchKey (str ''bangkok-branch'')
              \<longrightarrow> d = str ''bangkok-branch'')"
    have ne: "str ''Bangkok Branch '' \<noteq> []" by (simp add: str_def)
    from h have h1: "str ''bangkok-branch'' \<in> set cs" by (rule conjunct1)
    from h have "\<forall>d \<in> set cs. normalizeBranchKey d = normalizeBranchKey (str ''bangkok-branch'')
              \<longrightarrow> d = str ''bangkok-branch''" by (rule conjunct2)
    then have h2: "\<forall>d \<in> set cs. normalizeBranchKey d = normalizeBranchKey (str ''Bangkok Branch '')
              \<longrightarrow> d = str ''bangkok-branch''"
      by (simp only: key_Bangkok_Branch key_bangkok_branch)
    have k: "normalizeBranchKey (str ''bangkok-branch'') = normalizeBranchKey (str ''Bangkok Branch '')"
      by (simp only: key_Bangkok_Branch key_bangkok_branch)
    have "scanCanonical (normalizeBranchKey (str ''Bangkok Branch '')) cs
            = Some (str ''bangkok-branch'')"
      by (rule scanCanonical_unique [OF h1 k h2])
    with ne show "resolveCanonicalBranch (str ''Bangkok Branch '') cs = Some (str ''bangkok-branch'')"
      by (simp only: resolveCanonicalBranch_def if_False)
  qed
  show "str ''Bangkok Branch '' \<in> set cs
        \<and> (\<forall>d \<in> set cs. normalizeBranchKey d = normalizeBranchKey (str ''Bangkok Branch '')
              \<longrightarrow> d = str ''Bangkok Branch '')
      \<longrightarrow> resolveCanonicalBranch (str ''bangkok-branch'') cs = Some (str ''Bangkok Branch '')"
  proof
    assume h: "str ''Bangkok Branch '' \<in> set cs
        \<and> (\<forall>d \<in> set cs. normalizeBranchKey d = normalizeBranchKey (str ''Bangkok Branch '')
              \<longrightarrow> d = str ''Bangkok Branch '')"
    have ne: "str ''bangkok-branch'' \<noteq> []" by (simp add: str_def)
    from h have h1: "str ''Bangkok Branch '' \<in> set cs" by (rule conjunct1)
    from h have "\<forall>d \<in> set cs. normalizeBranchKey d = normalizeBranchKey (str ''Bangkok Branch '')
              \<longrightarrow> d = str ''Bangkok Branch ''" by (rule conjunct2)
    then have h2: "\<forall>d \<in> set cs. normalizeBranchKey d = normalizeBranchKey (str ''bangkok-branch'')
              \<longrightarrow> d = str ''Bangkok Branch ''"
      by (simp only: key_Bangkok_Branch key_bangkok_branch)
    have k: "normalizeBranchKey (str ''Bangkok Branch '') = normalizeBranchKey (str ''bangkok-branch'')"
      by (simp only: key_Bangkok_Branch key_bangkok_branch)
    have "scanCanonical (normalizeBranchKey (str ''bangkok-branch'')) cs
            = Some (str ''Bangkok Branch '')"
      by (rule scanCanonical_unique [OF h1 k h2])
    with ne show "resolveCanonicalBranch (str ''bangkok-branch'') cs = Some (str ''Bangkok Branch '')"
      by (simp only: resolveCanonicalBranch_def if_False)
  qed
qed

theorem resolveCanonicalBranch_first_match_witness:
  "resolveCanonicalBranch (str ''Bangkok Branch '') [str ''Siam'', str ''bangkok-branch'']
     = Some (str ''bangkok-branch'')
   \<and> resolveCanonicalBranch (str ''bangkok-branch'') [str ''Siam'', str ''Bangkok Branch '']
     = Some (str ''Bangkok Branch '')
   \<and> resolveCanonicalBranch (str ''Phuket'') [str ''Siam'', str ''Bangkok Branch ''] = None"
proof -
  have siam: "normalizeBranchKey (str ''Siam'') = str ''siam''"
    by (simp add: normalizeBranchKey_def toLowerCase_def toLowerCaseUnit_def keyUnit_def str_def)
  have phuket: "normalizeBranchKey (str ''Phuket'') = str ''phuket''"
    by (simp add: normalizeBranchKey_def toLowerCase_def toLowerCaseUnit_def keyUnit_def str_def)
  have a: "str ''bangkok-branch'' \<in> set [str ''Siam'', str ''bangkok-branch'']
        \<and> (\<forall>d \<in> set [str ''Siam'', str ''bangkok-branch''].
              normalizeBranchKey d = normalizeBranchKey (str ''bangkok-branch'')
              \<longrightarrow> d = str ''bangkok-branch'')"
    by (simp add: siam key_bangkok_branch) (simp add: str_def)
  have b: "str ''Bangkok Branch '' \<in> set [str ''Siam'', str ''Bangkok Branch '']
        \<and> (\<forall>d \<in> set [str ''Siam'', str ''Bangkok Branch ''].
              normalizeBranchKey d = normalizeBranchKey (str ''Bangkok Branch '')
              \<longrightarrow> d = str ''Bangkok Branch '')"
    by (simp add: siam key_Bangkok_Branch) (simp add: str_def)
  have c: "str ''Phuket'' = [] \<or> (\<forall>d \<in> set [str ''Siam'', str ''Bangkok Branch ''].
              normalizeBranchKey d \<noteq> normalizeBranchKey (str ''Phuket''))"
    by (simp add: siam phuket key_Bangkok_Branch) (simp add: str_def)
  note t1 = resolveCanonicalBranch_first_match
    [of "str ''Bangkok Branch ''" "[str ''Siam'', str ''bangkok-branch'']" "[]" "[]"]
  note t2 = resolveCanonicalBranch_first_match
    [of "str ''Phuket''" "[str ''Siam'', str ''Bangkok Branch '']" "[]" "[]"]
  from t1 a have "resolveCanonicalBranch (str ''Bangkok Branch '') [str ''Siam'', str ''bangkok-branch'']
     = Some (str ''bangkok-branch'')" by blast
  moreover from t2 b have "resolveCanonicalBranch (str ''bangkok-branch'') [str ''Siam'', str ''Bangkok Branch '']
     = Some (str ''Bangkok Branch '')" by blast
  moreover from t2 c have "resolveCanonicalBranch (str ''Phuket'') [str ''Siam'', str ''Bangkok Branch ''] = None"
    by blast
  ultimately show ?thesis by blast
qed

section \<open>Properties of the submission\<close>




lemma trySubmit_cases:
  "(fst (trySubmit exponential toBase64 fetch s) = DispatchFailed None
      \<and> snd (trySubmit exponential toBase64 fetch s) = s\<lparr>isSubmitting := False\<rparr>
      \<and> those (map toBase64 (selectedFiles s)) = None)
   \<or> (\<exists>media. those (map toBase64 (selectedFiles s)) = Some media
        \<and> \<not> fetch (buildPayload exponential s media)
        \<and> fst (trySubmit exponential toBase64 fetch s) = DispatchFailed (Some (buildPayload exponential s media))
        \<and> snd (trySubmit exponential toBase64 fetch s) = s\<lparr>isSubmitting := False\<rparr>)
   \<or> (\<exists>media. those (map toBase64 (selectedFiles s)) = Some media
        \<and> fetch (buildPayload exponential s media)
        \<and> fst (trySubmit exponential toBase64 fetch s) = Dispatched (buildPayload exponential s media) (successAlert exponential s)
        \<and> snd (trySubmit exponential toBase64 fetch s) = cleanup s)"
proof (cases "those (map toBase64 (selectedFiles s))")
  case None
  then show ?thesis by (simp add: trySubmit_def)
next
  case (Some media)
  then show ?thesis by (cases "fetch (buildPayload exponential s media)") (simp_all add: trySubmit_def)
qed


lemma handleSubmit_accepted:
  assumes "selectedBranch s \<noteq> []" and "selectedDate s \<noteq> []" and "validationAlert s = None"
  shows "handleSubmit exponential toBase64 fetch s = trySubmit exponential toBase64 fetch s"
  using assms by (simp add: handleSubmit_def)

lemma handleSubmit_rejected:
  assumes "selectedBranch s \<noteq> []" and "selectedDate s \<noteq> []" and "validationAlert s = Some a"
  shows "handleSubmit exponential toBase64 fetch s = (Rejected a, s)"
  using assms by (simp add: handleSubmit_def)

lemma handleSubmit_not_trySubmit:
  "handleSubmit exponential toBase64 fetch s = trySubmit exponential toBase64 fetch s
   \<or> (\<exists>a. handleSubmit exponential toBase64 fetch s = (Rejected a, s))"
  by (cases "validationAlert s") (simp_all add: handleSubmit_def)










text \<open>
  An id that is a name inherited from \<open>Object.prototype\<close> reads as checked without an
  entry. In \<open>protoState\<close> the only item of the selected branch has the id \<open>__proto__\<close>,
  nothing was ever checked, a note is written and no file is attached: no item reads
  as unchecked, and the submission is rejected for the missing attachment.
\<close>

lemma handleSubmit_inherited_id:
  "checkedItems protoState (idStr protoItem) = None
   \<and> \<not> isMissing protoState
   \<and> handleSubmit sciText readsAll postResolves protoState
       = (Rejected AlertCompleteNeedsMedia, protoState)"
proof -
  have n: "checkedItems protoState (idStr protoItem) = None"
    by (simp add: protoState_def nothingChecked_def)
  have m: "\<not> isMissing protoState"
    by (simp add: isMissing_def uncheckedItems_def allBranchItems_def protoState_def
          protoItem_def nothingChecked_def isChecked_def objectPrototypeKeys_def)
  have b: "selectedBranch protoState \<noteq> []" "selectedDate protoState \<noteq> []"
    by (simp_all add: protoState_def str_def)
  have v: "validationAlert protoState = Some AlertCompleteNeedsMedia"
    using m by (simp add: validationAlert_def) (simp add: protoState_def)
  from b v have "handleSubmit sciText readsAll postResolves protoState
       = (Rejected AlertCompleteNeedsMedia, protoState)"
    by (rule handleSubmit_rejected)
  with n m show ?thesis by (intro conjI)
qed

text \<open>
  Claim C3. When the dispatch fails (the \<open>try\<close> block throws, at the post or while an
  attachment is read), the check state in memory, the durable store, the note, the
  attachment list and the defect flag are what they were before the call; the state
  differs from the old one at most in \<open>isSubmitting\<close>, which the \<open>finally\<close> clause resets.
\<close>

theorem handleSubmit_failure_keeps_state:
  assumes "fst (handleSubmit exponential toBase64 fetch s) = DispatchFailed po"
  shows "checkedItems (snd (handleSubmit exponential toBase64 fetch s)) = checkedItems s
       \<and> localStorage (snd (handleSubmit exponential toBase64 fetch s)) = localStorage s
       \<and> reportNote (snd (handleSubmit exponential toBase64 fetch s)) = reportNote s
       \<and> selectedFiles (snd (handleSubmit exponential toBase64 fetch s)) = selectedFiles s
       \<and> isDefectMode (snd (handleSubmit exponential toBase64 fetch s)) = isDefectMode s
       \<and> snd (handleSubmit exponential toBase64 fetch s) = s\<lparr>isSubmitting := False\<rparr>"
proof -
  from assms handleSubmit_not_trySubmit [of exponential toBase64 fetch s]
  have eq: "handleSubmit exponential toBase64 fetch s = trySubmit exponential toBase64 fetch s" by auto
  with assms have "fst (trySubmit exponential toBase64 fetch s) = DispatchFailed po" by simp
  with trySubmit_cases [of exponential toBase64 fetch s]
  have "snd (trySubmit exponential toBase64 fetch s) = s\<lparr>isSubmitting := False\<rparr>" by auto
  with eq have "snd (handleSubmit exponential toBase64 fetch s) = s\<lparr>isSubmitting := False\<rparr>" by simp
  then show ?thesis by simp
qed

lemma exampleState_valid: "validationAlert exampleState = None"
  by (simp add: validationAlert_def isMissing_def uncheckedItems_def allBranchItems_def exampleState_def
        exampleCatalog_def isChecked_def objectPrototypeKeys_def str_def)

theorem handleSubmit_failure_keeps_state_witness:
  "fst (handleSubmit sciText readsAll postThrows exampleState)
     = DispatchFailed (Some (buildPayload sciText exampleState []))
   \<and> checkedItems (snd (handleSubmit sciText readsAll postThrows exampleState)) = checkedItems exampleState
   \<and> localStorage (snd (handleSubmit sciText readsAll postThrows exampleState)) = localStorage exampleState
   \<and> reportNote (snd (handleSubmit sciText readsAll postThrows exampleState)) = str ''Banner not delivered''"
proof -
  have b: "selectedBranch exampleState \<noteq> []" by (simp add: exampleState_def str_def)
  have d: "selectedDate exampleState \<noteq> []" by (simp add: exampleState_def str_def)
  have e: "selectedFiles exampleState = []" by (simp add: exampleState_def)
  have "handleSubmit sciText readsAll postThrows exampleState = trySubmit sciText readsAll postThrows exampleState"
    using b d exampleState_valid by (rule handleSubmit_accepted)
  then have f: "fst (handleSubmit sciText readsAll postThrows exampleState)
     = DispatchFailed (Some (buildPayload sciText exampleState []))"
    by (simp add: trySubmit_def e postThrows_def)
  have n: "reportNote exampleState = str ''Banner not delivered''" by (simp add: exampleState_def)
  from handleSubmit_failure_keeps_state [OF f] f n show ?thesis by simp
qed

section \<open>Properties of the checklist store\<close>

lemma storageKey_inject: "storageKey i = storageKey j \<longleftrightarrow> i = j"
  by (simp add: storageKey_def)

lemma handleToggleCheck_dated:
  assumes "selectedDate s \<noteq> []"
  shows "snd (handleToggleCheck i s) =
           s\<lparr>checkedItems := (checkedItems s)(i \<mapsto> \<not> isChecked (checkedItems s) i),
             localStorage :=
               (if isChecked (checkedItems s) i then (localStorage s)(storageKey i := None)
                else (localStorage s)(storageKey i \<mapsto> str ''true''))\<rparr>"
  using assms by (simp add: handleToggleCheck_def Let_def)

lemma handleToggleCheck_date: "selectedDate (snd (handleToggleCheck i s)) = selectedDate s"
  by (simp add: handleToggleCheck_def Let_def)

lemma handleToggleCheck_flips:
  assumes "selectedDate s \<noteq> []"
  shows "isChecked (checkedItems (snd (handleToggleCheck i s))) j
           = (if j = i then \<not> isChecked (checkedItems s) i else isChecked (checkedItems s) j)"
  using assms by (simp add: handleToggleCheck_dated isChecked_def objectPrototypeKeys_def)

text \<open>
  The store agrees with the check state at an id when the key \<open>pop_check_\<close>\<open>id\<close> holds
  \<open>'true'\<close> exactly if the id reads as checked. A toggle keeps the agreement at every id
  where it holds. The start-up effect gives it only for a store whose check entries all
  hold \<open>'true'\<close>, and only at an id that is not a name inherited from \<open>Object.prototype\<close>.
\<close>

lemma loadSavedChecks_agrees:
  assumes "\<forall>i v. storage (storageKey i) = Some v \<longrightarrow> v = str ''true''"
    and "i \<notin> set objectPrototypeKeys"
  shows "storage (storageKey i)
           = (if isChecked (loadSavedChecks storage) i then Some (str ''true'') else None)"
proof (cases "storage (storageKey i)")
  case None
  with assms(2) show ?thesis by (simp add: loadSavedChecks_def isChecked_def)
next
  case (Some v)
  with assms(1) have v: "v = str ''true''" by blast
  have "str ''__proto__'' \<in> set objectPrototypeKeys" by (simp add: objectPrototypeKeys_def)
  with assms(2) have "i \<noteq> str ''__proto__''" by blast
  with Some v show ?thesis by (simp add: loadSavedChecks_def isChecked_def)
qed

lemma handleToggleCheck_agrees:
  assumes "\<forall>j. localStorage s (storageKey j)
                = (if isChecked (checkedItems s) j then Some (str ''true'') else None)"
  shows "localStorage (snd (handleToggleCheck i s)) (storageKey j)
           = (if isChecked (checkedItems (snd (handleToggleCheck i s))) j
              then Some (str ''true'') else None)"
proof (cases "selectedDate s = []")
  case True
  then have "snd (handleToggleCheck i s) = s" by (simp add: handleToggleCheck_def)
  with assms show ?thesis by simp
next
  case False
  from assms have a: "localStorage s (storageKey j)
                = (if isChecked (checkedItems s) j then Some (str ''true'') else None)" by blast
  show ?thesis
    unfolding handleToggleCheck_flips [OF False]
    by (subst handleToggleCheck_dated [OF False]) (simp add: storageKey_inject a)
qed

text \<open>
  With a date selected, two toggles of an id restore the checked reading of every id,
  and they leave under the key of the id \<open>'true'\<close> if the id read as checked at the
  start and nothing otherwise. So the store is restored exactly if it agreed with the
  check state at the id.
\<close>

lemma toggle_twice_store_iff:
  assumes "selectedDate s \<noteq> []"
  shows "localStorage (snd (handleToggleCheck i (snd (handleToggleCheck i s)))) = localStorage s
         \<longleftrightarrow> localStorage s (storageKey i)
               = (if isChecked (checkedItems s) i then Some (str ''true'') else None)"
proof -
  let ?s1 = "snd (handleToggleCheck i s)"
  let ?s2 = "snd (handleToggleCheck i ?s1)"
  have d1: "selectedDate ?s1 \<noteq> []" using assms by (simp add: handleToggleCheck_date)
  have chk1: "isChecked (checkedItems ?s1) i = (\<not> isChecked (checkedItems s) i)"
    by (simp add: handleToggleCheck_flips [OF assms])
  have ls1: "localStorage ?s1 =
               (if isChecked (checkedItems s) i then (localStorage s)(storageKey i := None)
                else (localStorage s)(storageKey i \<mapsto> str ''true''))"
    by (subst handleToggleCheck_dated [OF assms]) simp
  have ls2: "localStorage ?s2 =
               (if isChecked (checkedItems ?s1) i then (localStorage ?s1)(storageKey i := None)
                else (localStorage ?s1)(storageKey i \<mapsto> str ''true''))"
    by (subst handleToggleCheck_dated [OF d1]) simp
  have at: "localStorage ?s2 (storageKey i)
              = (if isChecked (checkedItems s) i then Some (str ''true'') else None)"
    unfolding ls2 chk1 ls1 by simp
  show ?thesis
  proof
    assume "localStorage ?s2 = localStorage s"
    with at show "localStorage s (storageKey i)
               = (if isChecked (checkedItems s) i then Some (str ''true'') else None)" by simp
  next
    assume a: "localStorage s (storageKey i)
               = (if isChecked (checkedItems s) i then Some (str ''true'') else None)"
    show "localStorage ?s2 = localStorage s"
    proof (cases "isChecked (checkedItems s) i")
      case True
      with a have "localStorage s (storageKey i) = Some (str ''true'')" by simp
      then have "(localStorage s)(storageKey i \<mapsto> str ''true'') = localStorage s"
        by (rule map_upd_triv)
      with True show ?thesis unfolding ls2 chk1 ls1 by simp
    next
      case False
      with a have "localStorage s (storageKey i) = None" by simp
      then have "(localStorage s)(storageKey i := None) = localStorage s"
        by (simp add: fun_upd_idem)
      with False show ?thesis unfolding ls2 chk1 ls1 by simp
    qed
  qed
qed

text \<open>
  Claim C8. With a reporting date selected, toggling the same id twice in succession
  restores the checked reading of every id and the contents of the durable store (the
  same keys with the same values), from every starting state in which the store agrees
  with the check state at that id: the key \<open>pop_check_\<close>\<open>id\<close> holds \<open>'true'\<close> if the id
  reads as checked and is absent otherwise.
\<close>

theorem handleToggleCheck_twice:
  assumes "selectedDate s \<noteq> []"
    and "localStorage s (storageKey i)
           = (if isChecked (checkedItems s) i then Some (str ''true'') else None)"
  shows "(\<forall>j. isChecked (checkedItems (snd (handleToggleCheck i (snd (handleToggleCheck i s))))) j
               = isChecked (checkedItems s) j)
       \<and> localStorage (snd (handleToggleCheck i (snd (handleToggleCheck i s)))) = localStorage s"
proof -
  let ?s1 = "snd (handleToggleCheck i s)"
  let ?s2 = "snd (handleToggleCheck i ?s1)"
  have d1: "selectedDate ?s1 \<noteq> []" using assms(1) by (simp add: handleToggleCheck_date)
  have c: "\<forall>j. isChecked (checkedItems ?s2) j = isChecked (checkedItems s) j"
    by (simp add: handleToggleCheck_flips [OF d1] handleToggleCheck_flips [OF assms(1)])
  have chk1: "isChecked (checkedItems ?s1) i = (\<not> isChecked (checkedItems s) i)"
    by (simp add: handleToggleCheck_flips [OF assms(1)])
  have ls1: "localStorage ?s1 =
               (if isChecked (checkedItems s) i then (localStorage s)(storageKey i := None)
                else (localStorage s)(storageKey i \<mapsto> str ''true''))"
    by (subst handleToggleCheck_dated [OF assms(1)]) simp
  have ls2: "localStorage ?s2 =
               (if isChecked (checkedItems ?s1) i then (localStorage ?s1)(storageKey i := None)
                else (localStorage ?s1)(storageKey i \<mapsto> str ''true''))"
    by (subst handleToggleCheck_dated [OF d1]) simp
  have st: "localStorage ?s2 = localStorage s"
  proof (cases "isChecked (checkedItems s) i")
    case True
    with assms(2) have "localStorage s (storageKey i) = Some (str ''true'')" by simp
    then have "(localStorage s)(storageKey i \<mapsto> str ''true'') = localStorage s"
      by (rule map_upd_triv)
    with True show ?thesis unfolding ls2 chk1 ls1 by simp
  next
    case False
    with assms(2) have "localStorage s (storageKey i) = None" by simp
    then have "(localStorage s)(storageKey i := None) = localStorage s"
      by (simp add: fun_upd_idem)
    with False show ?thesis unfolding ls2 chk1 ls1 by simp
  qed
  from c st show ?thesis by (rule conjI)
qed


theorem handleToggleCheck_twice_witness:
  "selectedDate exampleState \<noteq> []
   \<and> isChecked (checkedItems exampleState) (str ''Siam_Poster'')
   \<and> localStorage exampleState (storageKey (str ''Siam_Poster'')) = Some (str ''true'')
   \<and> localStorage (snd (handleToggleCheck (str ''Siam_Poster'')
          (snd (handleToggleCheck (str ''Siam_Poster'') exampleState)))) = localStorage exampleState
   \<and> isChecked (checkedItems (snd (handleToggleCheck (str ''Siam_Poster'')
          (snd (handleToggleCheck (str ''Siam_Poster'') exampleState))))) (str ''Siam_Poster'')"
proof -
  have d: "selectedDate exampleState \<noteq> []" by (simp add: exampleState_def str_def)
  have c: "isChecked (checkedItems exampleState) (str ''Siam_Poster'')"
    by (simp add: exampleState_def isChecked_def objectPrototypeKeys_def str_def)
  have l: "localStorage exampleState (storageKey (str ''Siam_Poster'')) = Some (str ''true'')"
    by (simp add: exampleState_def storageKey_inject)
  have h: "localStorage exampleState (storageKey (str ''Siam_Poster''))
           = (if isChecked (checkedItems exampleState) (str ''Siam_Poster'')
              then Some (str ''true'') else None)"
    using c l by simp
  from handleToggleCheck_twice [OF d h] d c l show ?thesis by simp
qed

text \<open>
  The same from every starting state does not hold. The component itself reaches states in which the
  store does not agree with the check state, and there two toggles do not restore the
  store. In \<open>startUp freshStore\<close> the store is empty and nothing was ever checked; the
  id \<open>__proto__\<close>, which the ingestion gives to the item \<open>_\<close> of a branch \<open>__proto\<close>, reads
  as checked through the prototype, so the first toggle writes \<open>false\<close> and the second
  stores \<open>'true'\<close> under a key that did not exist. In \<open>startUp foreignStore\<close> the key of
  \<open>Siam_Poster\<close> holds \<open>'1'\<close>, which the start-up effect loads as checked; after two
  toggles the key holds \<open>'true'\<close>.
\<close>

theorem handleToggleCheck_twice_changes_store:
  "selectedDate (startUp freshStore) \<noteq> []
   \<and> makeId (str ''__proto'') (str ''_'') = str ''__proto__''
   \<and> localStorage (startUp freshStore) (storageKey (str ''__proto__'')) = None
   \<and> localStorage (snd (handleToggleCheck (str ''__proto__'')
          (snd (handleToggleCheck (str ''__proto__'') (startUp freshStore)))))
        (storageKey (str ''__proto__'')) = Some (str ''true'')
   \<and> selectedDate (startUp foreignStore) \<noteq> []
   \<and> localStorage (startUp foreignStore) (storageKey (str ''Siam_Poster'')) = Some (str ''1'')
   \<and> localStorage (snd (handleToggleCheck (str ''Siam_Poster'')
          (snd (handleToggleCheck (str ''Siam_Poster'') (startUp foreignStore)))))
        (storageKey (str ''Siam_Poster'')) = Some (str ''true'')"
proof -
  have p: "str ''__proto__'' \<in> set objectPrototypeKeys" by (simp add: objectPrototypeKeys_def)
  have d: "selectedDate (startUp st) \<noteq> []" for st by (simp add: startUp_def str_def)
  have m: "makeId (str ''__proto'') (str ''_'') = str ''__proto__''"
    by (simp add: makeId_def str_def isWhiteSpace_def)
  have f0: "localStorage (startUp freshStore) (storageKey (str ''__proto__'')) = None"
    by (simp add: startUp_def freshStore_def)
  have c0: "isChecked (checkedItems (startUp freshStore)) (str ''__proto__'')"
    using p by (simp add: startUp_def freshStore_def loadSavedChecks_def isChecked_def)
  have g0: "localStorage (startUp foreignStore) (storageKey (str ''Siam_Poster''))
              = Some (str ''1'')"
    by (simp add: startUp_def foreignStore_def)
  have k: "str ''Siam_Poster'' \<noteq> str ''__proto__''" by (simp add: str_def)
  have c1: "isChecked (checkedItems (startUp foreignStore)) (str ''Siam_Poster'')"
    using k by (simp add: startUp_def foreignStore_def loadSavedChecks_def isChecked_def)
  have two: "localStorage (snd (handleToggleCheck i (snd (handleToggleCheck i s)))) (storageKey i)
               = Some (str ''true'')"
    if "selectedDate s \<noteq> []" and "isChecked (checkedItems s) i" for i and s :: "unit AppState"
  proof -
    let ?s1 = "snd (handleToggleCheck i s)"
    have d1: "selectedDate ?s1 \<noteq> []" using that(1) by (simp add: handleToggleCheck_date)
    have n1: "\<not> isChecked (checkedItems ?s1) i"
      using that(2) by (simp add: handleToggleCheck_flips [OF that(1)])
    show ?thesis by (subst handleToggleCheck_dated [OF d1]) (simp add: n1)
  qed
  from d m f0 g0 two [OF d c0] two [OF d c1] show ?thesis by simp
qed

section \<open>The loops of the ingestion, characterised\<close>

lemma scanRow_eq:
  "scanRow c n row es pd = pd @ concat (map (cellItems c n row) es)"
proof (induction es arbitrary: pd)
  case Nil
  show ?case by simp
next
  case (Cons e es)
  obtain index branchName where e: "e = (index, branchName)" by (cases e)
  show ?case
    by (cases "\<not> isNaN (cellQty row index) \<and> greaterThanZero (cellQty row index)")
       (simp_all add: e Cons.IH cellItems_def Let_def)
qed

lemma scanLines_eq:
  "scanLines c columns ls pd = pd @ concat (map (rowItems c columns) ls)"
proof (induction ls arbitrary: pd)
  case Nil
  show ?case by simp
next
  case (Cons line ls)
  show ?case
    by (cases "skippedRow (js_split 44 line)")
       (simp_all add: Let_def Cons.IH rowItems_def scanRow_eq)
qed

lemma registerHeaders_indices:
  "snd (registerHeaders i hs (bs, bi))
     = bi @ filter (\<lambda>e. isBranchHeader (snd e)) (enumerate i (map cleanCell hs))"
proof (induction hs arbitrary: i bs bi)
  case Nil
  show ?case by simp
next
  case (Cons h hs)
  show ?case
    by (cases "isBranchHeader (cleanCell h)") (simp_all add: Let_def Cons.IH)
qed

lemma set_setAdd: "set (setAdd n bs) = insert n (set bs)"
  by (auto simp: setAdd_def)

lemma registerHeaders_set:
  "set (fst (registerHeaders i hs (bs, bi)))
     = set bs \<union> {n \<in> set (map cleanCell hs). isBranchHeader n}"
proof (induction hs arbitrary: i bs bi)
  case Nil
  show ?case by simp
next
  case (Cons h hs)
  show ?case
  proof (cases "isBranchHeader (cleanCell h)")
    case True
    then show ?thesis by (simp add: Let_def Cons.IH set_setAdd) blast
  next
    case False
    then show ?thesis by (simp add: Let_def Cons.IH) blast
  qed
qed

lemma parseCSV_items:
  "fst (parseCSV t c bs) =
     (case headerAndRows t of
        None \<Rightarrow> []
      | Some (header, rest) \<Rightarrow> concat (map (rowItems c (branchColumns header)) rest))"
proof (cases "headerAndRows t")
  case None
  then show ?thesis by (auto simp: parseCSV_def headerAndRows_def split: if_splits)
next
  case (Some hr)
  obtain header rest where hr: "hr = (header, rest)" by (cases hr)
  from Some hr have ne: "t \<noteq> []" and f: "findHeader (js_split 10 (trim t)) = Some (header, rest)"
    by (auto simp: headerAndRows_def split: if_splits)
  obtain bs' bi where r: "registerHeaders 0 (js_split 44 header) (bs, []) = (bs', bi)"
    by (cases "registerHeaders 0 (js_split 44 header) (bs, [])")
  from registerHeaders_indices [of 0 "js_split 44 header" bs "[]"] r
  have bi: "bi = branchColumns header" by (simp add: branchColumns_def)
  show ?thesis by (simp add: Some hr parseCSV_def ne f r scanLines_eq bi)
qed

lemma parseCSV_branchSet:
  "set (snd (parseCSV t c bs)) =
     (case headerAndRows t of
        None \<Rightarrow> set bs
      | Some (header, rest) \<Rightarrow>
          set bs \<union> {n \<in> set (map cleanCell (js_split 44 header)). isBranchHeader n})"
proof (cases "headerAndRows t")
  case None
  then show ?thesis by (auto simp: parseCSV_def headerAndRows_def split: if_splits)
next
  case (Some hr)
  obtain header rest where hr: "hr = (header, rest)" by (cases hr)
  from Some hr have ne: "t \<noteq> []" and f: "findHeader (js_split 10 (trim t)) = Some (header, rest)"
    by (auto simp: headerAndRows_def split: if_splits)
  obtain bs' bi where r: "registerHeaders 0 (js_split 44 header) (bs, []) = (bs', bi)"
    by (cases "registerHeaders 0 (js_split 44 header) (bs, [])")
  from registerHeaders_set [of 0 "js_split 44 header" bs "[]"] r
  have "set bs' = set bs \<union> {n \<in> set (map cleanCell (js_split 44 header)). isBranchHeader n}"
    by simp
  then show ?thesis by (simp add: Some hr parseCSV_def ne f r)
qed

lemma findHeader_first:
  assumes "\<forall>l \<in> set before. \<not> includesStr l (str ''Head Office'')"
    and "includesStr header (str ''Head Office'')"
  shows "findHeader (before @ header # rest) = Some (header, rest)"
  using assms by (induction before) simp_all

lemma findHeader_none:
  "findHeader ls = None \<longleftrightarrow> (\<forall>l \<in> set ls. \<not> includesStr l (str ''Head Office''))"
  by (induction ls) simp_all

lemma headerAndRows_lines:
  assumes "csvText \<noteq> []" and "js_split 10 (trim csvText) = before @ header # rest"
    and "\<forall>l \<in> set before. \<not> includesStr l (str ''Head Office'')"
    and "includesStr header (str ''Head Office'')"
  shows "headerAndRows csvText = Some (header, rest)"
  using assms(1,2) findHeader_first [OF assms(3,4)] by (simp add: headerAndRows_def)

lemma greaterThanZero_cases:
  "greaterThanZero x \<longleftrightarrow> x = PosInfinity \<or> (\<exists>v. x = Finite v \<and> 0 < v)"
  by (cases x) (simp_all add: greaterThanZero_def)

lemma greaterThanZero_not_NaN: "greaterThanZero x \<Longrightarrow> \<not> isNaN x"
  by (cases x) (simp_all add: greaterThanZero_def isNaN_def)

lemma cellItems_greater:
  "cellItems c n row e =
     (if greaterThanZero (cellQty row (fst e))
      then [\<lparr>idStr = makeId (snd e) n, branch = snd e, category = c, item = n,
              qty = cellQty row (fst e)\<rparr>]
      else [])"
  using greaterThanZero_not_NaN [of "cellQty row (fst e)"] by (auto simp: cellItems_def)

lemma cellItems_mem:
  assumes "it \<in> set (cellItems c n row e)"
  shows "idStr it = makeId (snd e) n \<and> branch it = snd e \<and> category it = c \<and> item it = n
         \<and> greaterThanZero (qty it) \<and> cellQty row (fst e) = qty it"
proof (cases "greaterThanZero (cellQty row (fst e))")
  case True
  with assms show ?thesis by (simp add: cellItems_greater)
next
  case False
  with assms show ?thesis by (simp add: cellItems_greater)
qed

lemma rowItems_mem:
  assumes "it \<in> set (rowItems c columns line)"
  shows "\<not> skippedRow (js_split 44 line)
         \<and> (\<exists>e \<in> set columns.
               it \<in> set (cellItems c (rowItemName (js_split 44 line)) (js_split 44 line) e))"
proof (cases "skippedRow (js_split 44 line)")
  case True
  with assms show ?thesis by (simp add: rowItems_def)
next
  case False
  with assms show ?thesis by (auto simp: rowItems_def)
qed

lemma parseCSV_mem:
  assumes "it \<in> set (fst (parseCSV t c bs))"
  shows "\<exists>header rest line e. headerAndRows t = Some (header, rest) \<and> line \<in> set rest
           \<and> e \<in> set (branchColumns header) \<and> \<not> skippedRow (js_split 44 line)
           \<and> it \<in> set (cellItems c (rowItemName (js_split 44 line)) (js_split 44 line) e)"
proof (cases "headerAndRows t")
  case None
  with assms show ?thesis by (simp add: parseCSV_items)
next
  case (Some hr)
  obtain header rest where hr: "hr = (header, rest)" by (cases hr)
  from assms Some hr obtain line where l: "line \<in> set rest"
    and m: "it \<in> set (rowItems c (branchColumns header) line)"
    by (auto simp: parseCSV_items)
  from rowItems_mem [OF m] obtain e where "e \<in> set (branchColumns header)"
    and "\<not> skippedRow (js_split 44 line)"
    and "it \<in> set (cellItems c (rowItemName (js_split 44 line)) (js_split 44 line) e)"
    by blast
  with Some hr l show ?thesis by blast
qed

lemma parseCSV_item_fields:
  assumes "it \<in> set (fst (parseCSV t c bs))"
  shows "idStr it = makeId (branch it) (item it) \<and> category it = c \<and> greaterThanZero (qty it)"
proof -
  from parseCSV_mem [OF assms] obtain n row e where "it \<in> set (cellItems c n row e)" by blast
  from cellItems_mem [OF this] show ?thesis by simp
qed

lemma collapseSpaces_no_blank: "u \<in> set (collapseSpaces s) \<Longrightarrow> \<not> isWhiteSpace u"
proof (induction s arbitrary: u rule: collapseSpaces.induct)
  case 1
  then show ?case by simp
next
  case (2 c cs)
  show ?case
  proof (cases "isWhiteSpace c")
    case True
    with "2.prems" have "u = 95 \<or> u \<in> set (collapseSpaces (dropWhile isWhiteSpace cs))" by simp
    then show ?thesis
    proof
      assume "u = 95"
      then show ?thesis by (simp add: isWhiteSpace_def)
    next
      assume "u \<in> set (collapseSpaces (dropWhile isWhiteSpace cs))"
      with True show ?thesis by (rule "2.IH"(1))
    qed
  next
    case False
    with "2.prems" have "u = c \<or> u \<in> set (collapseSpaces cs)" by simp
    then show ?thesis
    proof
      assume "u = c"
      with False show ?thesis by simp
    next
      assume "u \<in> set (collapseSpaces cs)"
      with False show ?thesis by (rule "2.IH"(2))
    qed
  qed
qed

lemma collapseSpaces_no_blank_id: "\<forall>u \<in> set s. \<not> isWhiteSpace u \<Longrightarrow> collapseSpaces s = s"
  by (induction s) simp_all

lemma js_split_no_sep: "sep \<notin> set a \<Longrightarrow> js_split sep a = [a]"
  by (induction a) simp_all

lemma js_split_append: "sep \<notin> set a \<Longrightarrow> js_split sep (a @ sep # b) = a # js_split sep b"
  by (induction a) simp_all

lemma trim_append:
  assumes "b \<noteq> []" and "\<not> isWhiteSpace (hd b)" and "\<not> isWhiteSpace (last b)"
  shows "trim (a @ b) = dropWhile isWhiteSpace a @ b"
proof -
  from assms(1,2) have "dropWhile isWhiteSpace b = b" by (cases b) simp_all
  then have 1: "dropWhile isWhiteSpace (a @ b) = dropWhile isWhiteSpace a @ b"
    by (simp add: dropWhile_append)
  from assms(1,3) have "dropWhile isWhiteSpace (rev b) = rev b"
    by (cases "rev b") (simp_all add: last_rev [symmetric] del: last_rev)
  moreover from assms(1) have "last b \<in> set (rev b)" by simp
  then have "dropWhile isWhiteSpace (rev b @ rev (dropWhile isWhiteSpace a))
               = dropWhile isWhiteSpace (rev b) @ rev (dropWhile isWhiteSpace a)"
    using assms(3) by (rule dropWhile_append1)
  ultimately have "dropWhile isWhiteSpace (rev b @ rev (dropWhile isWhiteSpace a))
               = rev b @ rev (dropWhile isWhiteSpace a)" by simp
  with 1 show ?thesis by (simp add: trim_def)
qed

lemma includesStr_append: "includesStr b sub \<Longrightarrow> includesStr (a @ b) sub"
  by (induction a) simp_all

lemma cleanCell_dropWhile: "cleanCell (dropWhile isWhiteSpace a) = cleanCell a"
  by (simp add: cleanCell_def trim_def)

section \<open>Evaluating the ingestion on a concrete sheet\<close>

lemma parseCSV_stages:
  assumes "csvText \<noteq> []" and "js_split 10 (trim csvText) = lines"
    and "findHeader lines = Some (header, rest)"
    and "registerHeaders 0 (js_split 44 header) (branchSet, []) = (branchSet', branchIndices)"
    and "scanLines categoryName branchIndices rest [] = items"
  shows "parseCSV csvText categoryName branchSet = (items, branchSet')"
  using assms by (simp add: parseCSV_def)

lemma collisionCatalog_eq:
  "collisionCatalog =
     [\<lparr>idStr = str ''Siam_Square_Poster'', branch = str ''Siam'', category = str ''RE-Brand'',
        item = str ''Square Poster'', qty = Finite 2\<rparr>,
      collisionItem]"
proof -
  have ne: "collisionCsv \<noteq> []" by (simp add: collisionCsv_def str_def)
  have l1: "js_split 10 (trim collisionCsv) =
    [str ''No.,List,Head Office,Siam,Siam Square'', str ''1,Square Poster,0,2,0'',
     str ''2,Poster,0,0,4'']"
    by (simp add: collisionCsv_def trim_def isWhiteSpace_def str_def)
  have l2: "findHeader [str ''No.,List,Head Office,Siam,Siam Square'',
       str ''1,Square Poster,0,2,0'', str ''2,Poster,0,0,4'']
    = Some (str ''No.,List,Head Office,Siam,Siam Square'',
       [str ''1,Square Poster,0,2,0'', str ''2,Poster,0,0,4''])"
    by (simp add: str_def)
  have l3: "registerHeaders 0 (js_split 44 (str ''No.,List,Head Office,Siam,Siam Square'')) ([], [])
    = ([str ''Head Office'', str ''Siam'', str ''Siam Square''],
       [(2, str ''Head Office''), (3, str ''Siam''), (4, str ''Siam Square'')])"
    by (simp add: str_def cleanCell_def trim_def stripQuotes_def isBranchHeader_def setAdd_def
          isWhiteSpace_def Let_def)
  have l4: "scanLines (str ''RE-Brand'')
       [(2, str ''Head Office''), (3, str ''Siam''), (4, str ''Siam Square'')]
       [str ''1,Square Poster,0,2,0'', str ''2,Poster,0,0,4''] [] =
     [\<lparr>idStr = str ''Siam_Square_Poster'', branch = str ''Siam'', category = str ''RE-Brand'',
        item = str ''Square Poster'', qty = Finite 2\<rparr>,
      collisionItem]"
    by (simp add: str_def skippedRow_def rowItemName_def cellOr_def cellQty_def parseInt_def
          numberOfInteger_def isNaN_def greaterThanZero_def digitValue_def startsWith_def
          makeId_def cleanCell_def trim_def stripQuotes_def isWhiteSpace_def Let_def
          collisionItem_def)
  show ?thesis
    unfolding collisionCatalog_def by (simp add: parseCSV_stages [OF ne l1 l2 l3 l4])
qed

section \<open>Properties of the cleanup after a dispatch\<close>

lemma clearItems_checked:
  "fst (clearItems its (c, st)) = (\<lambda>j. if j \<in> idStr ` set its then None else c j)"
  by (induction its arbitrary: c st) (auto simp: fun_eq_iff)

lemma clearItems_storage:
  "snd (clearItems its (c, st)) = (\<lambda>k. if k \<in> storageKey ` idStr ` set its then None else st k)"
  by (induction its arbitrary: c st) (auto simp: fun_eq_iff)

lemma cleanup_fields:
  "checkedItems (cleanup s) = (\<lambda>j. if j \<in> idStr ` set (allBranchItems s) then None else checkedItems s j)"
  "localStorage (cleanup s) =
     (\<lambda>k. if k \<in> storageKey ` idStr ` set (allBranchItems s) then None else localStorage s k)"
  "reportNote (cleanup s) = []" "selectedFiles (cleanup s) = []" "isDefectMode (cleanup s) = False"
  using clearItems_checked [of "allBranchItems s" "checkedItems s" "localStorage s"]
        clearItems_storage [of "allBranchItems s" "checkedItems s" "localStorage s"]
  by (simp_all add: cleanup_def split_beta)

lemma handleSubmit_Dispatched_state:
  assumes "fst (handleSubmit exponential toBase64 fetch s) = Dispatched p a"
  shows "snd (handleSubmit exponential toBase64 fetch s) = cleanup s"
proof -
  from assms handleSubmit_not_trySubmit [of exponential toBase64 fetch s]
  have eq: "handleSubmit exponential toBase64 fetch s = trySubmit exponential toBase64 fetch s" by auto
  with assms have "fst (trySubmit exponential toBase64 fetch s) = Dispatched p a" by simp
  with trySubmit_cases [of exponential toBase64 fetch s]
  have "snd (trySubmit exponential toBase64 fetch s) = cleanup s" by auto
  with eq show ?thesis by simp
qed

text \<open>
  What the cleanup does, stated by id. After a successful dispatch no id of an item of
  the selected branch has an own entry in \<open>checkedItems\<close> or a key in the store, so such
  an id reads as checked only if it is a name inherited from \<open>Object.prototype\<close>; every
  entry whose id is not the id of an item of that branch is unchanged, in memory and in
  the store, and so is every other key of the store; note, attachments and defect flag
  are back at their initial values.
\<close>

lemma handleSubmit_success_clears_ids:
  assumes "fst (handleSubmit exponential toBase64 fetch s) = Dispatched p a"
  shows "(\<forall>it \<in> set (database s). branch it = selectedBranch s \<longrightarrow>
            checkedItems (snd (handleSubmit exponential toBase64 fetch s)) (idStr it) = None
            \<and> (isChecked (checkedItems (snd (handleSubmit exponential toBase64 fetch s))) (idStr it)
                 \<longleftrightarrow> idStr it \<in> set objectPrototypeKeys)
            \<and> localStorage (snd (handleSubmit exponential toBase64 fetch s)) (storageKey (idStr it)) = None)
       \<and> (\<forall>j. (\<forall>it \<in> set (database s). branch it = selectedBranch s \<longrightarrow> idStr it \<noteq> j) \<longrightarrow>
            checkedItems (snd (handleSubmit exponential toBase64 fetch s)) j = checkedItems s j
            \<and> localStorage (snd (handleSubmit exponential toBase64 fetch s)) (storageKey j)
                = localStorage s (storageKey j))
       \<and> (\<forall>k. (\<forall>it \<in> set (database s). branch it = selectedBranch s \<longrightarrow> storageKey (idStr it) \<noteq> k) \<longrightarrow>
            localStorage (snd (handleSubmit exponential toBase64 fetch s)) k = localStorage s k)
       \<and> reportNote (snd (handleSubmit exponential toBase64 fetch s)) = []
       \<and> selectedFiles (snd (handleSubmit exponential toBase64 fetch s)) = []
       \<and> isDefectMode (snd (handleSubmit exponential toBase64 fetch s)) = False"
proof -
  have s': "snd (handleSubmit exponential toBase64 fetch s) = cleanup s"
    using assms by (rule handleSubmit_Dispatched_state)
  have mem: "\<And>j. j \<in> idStr ` set (allBranchItems s) \<longleftrightarrow>
               (\<exists>it \<in> set (database s). branch it = selectedBranch s \<and> idStr it = j)"
    by (auto simp: allBranchItems_def)
  have memk: "\<And>k. k \<in> storageKey ` idStr ` set (allBranchItems s) \<longleftrightarrow>
               (\<exists>it \<in> set (database s). branch it = selectedBranch s \<and> storageKey (idStr it) = k)"
    by (auto simp: allBranchItems_def)
  have 1: "\<forall>it \<in> set (database s). branch it = selectedBranch s \<longrightarrow>
            checkedItems (cleanup s) (idStr it) = None
            \<and> (isChecked (checkedItems (cleanup s)) (idStr it)
                 \<longleftrightarrow> idStr it \<in> set objectPrototypeKeys)
            \<and> localStorage (cleanup s) (storageKey (idStr it)) = None"
    by (auto simp: cleanup_fields mem memk isChecked_def)
  have 2: "\<forall>j. (\<forall>it \<in> set (database s). branch it = selectedBranch s \<longrightarrow> idStr it \<noteq> j) \<longrightarrow>
            checkedItems (cleanup s) j = checkedItems s j
            \<and> localStorage (cleanup s) (storageKey j) = localStorage s (storageKey j)"
    by (auto simp: cleanup_fields mem memk storageKey_inject)
  have 3: "\<forall>k. (\<forall>it \<in> set (database s). branch it = selectedBranch s \<longrightarrow> storageKey (idStr it) \<noteq> k) \<longrightarrow>
            localStorage (cleanup s) k = localStorage s k"
    by (auto simp: cleanup_fields memk)
  show ?thesis unfolding s' using 1 2 3 by (simp add: cleanup_fields(3-5))
qed

lemma collisionState_valid: "validationAlert collisionState = None"
  by (simp add: validationAlert_def isMissing_def uncheckedItems_def allBranchItems_def collisionState_def
        collisionCatalog_eq collisionItem_def isChecked_def objectPrototypeKeys_def)

text \<open>
  Claim C2. After a successful dispatch for a branch, every checked entry whose item
  belongs to a different branch should be unchanged. The cleanup clears the entries of
  the items of the selected branch, and it finds them by id; the id joins branch and
  item name with an underscore and also writes an underscore for every blank, so two
  branches can share an id. In \<open>collisionState\<close>, whose catalog is the one \<open>parseCSV\<close>
  returns for \<open>collisionCsv\<close>, the item \<open>Poster\<close> of branch \<open>Siam Square\<close> is checked, in
  memory and in the store; the submission for branch \<open>Siam\<close> is dispatched; afterwards
  the item of \<open>Siam Square\<close> reads as unchecked and its key is gone from the store,
  because \<open>Square Poster\<close> of \<open>Siam\<close> has the same id.
\<close>

theorem handleSubmit_clears_shared_id:
  "fst (parseCSV collisionCsv (str ''RE-Brand'') []) = database collisionState
   \<and> fst (handleSubmit sciText readsAll postResolves collisionState)
     = Dispatched (buildPayload sciText collisionState [str ''data:image/png;base64,AAAA''])
         AlertSavedComplete
   \<and> collisionItem \<in> set (database collisionState)
   \<and> branch collisionItem = str ''Siam Square''
   \<and> selectedBranch collisionState = str ''Siam''
   \<and> branch collisionItem \<noteq> selectedBranch collisionState
   \<and> isChecked (checkedItems collisionState) (idStr collisionItem)
   \<and> localStorage collisionState (storageKey (idStr collisionItem)) = Some (str ''true'')
   \<and> \<not> isChecked (checkedItems (snd (handleSubmit sciText readsAll postResolves collisionState)))
          (idStr collisionItem)
   \<and> localStorage (snd (handleSubmit sciText readsAll postResolves collisionState))
          (storageKey (idStr collisionItem)) = None"
proof -
  have b: "selectedBranch collisionState \<noteq> []" by (simp add: collisionState_def str_def)
  have d: "selectedDate collisionState \<noteq> []" by (simp add: collisionState_def str_def)
  have eq: "handleSubmit sciText readsAll postResolves collisionState
              = trySubmit sciText readsAll postResolves collisionState"
    using b d collisionState_valid by (rule handleSubmit_accepted)
  have fl: "selectedFiles collisionState = [()]" by (simp add: collisionState_def)
  have m: "\<not> isMissing collisionState"
    by (simp add: isMissing_def uncheckedItems_def allBranchItems_def collisionState_def
        collisionCatalog_eq collisionItem_def isChecked_def objectPrototypeKeys_def)
  have sa: "successAlert sciText collisionState = AlertSavedComplete"
    using m by (simp add: successAlert_def) (simp add: collisionState_def)
  have tr: "trySubmit sciText readsAll postResolves collisionState
      = (Dispatched (buildPayload sciText collisionState [str ''data:image/png;base64,AAAA''])
           AlertSavedComplete, cleanup collisionState)"
    by (simp add: trySubmit_def fl readsAll_def postResolves_def sa)
  have 0: "fst (parseCSV collisionCsv (str ''RE-Brand'') []) = database collisionState"
    by (simp add: collisionState_def collisionCatalog_def)
  have 1: "collisionItem \<in> set (database collisionState)"
    by (simp add: collisionState_def collisionCatalog_eq)
  have 2: "branch collisionItem = str ''Siam Square''" "selectedBranch collisionState = str ''Siam''"
    "branch collisionItem \<noteq> selectedBranch collisionState"
    by (simp_all add: collisionState_def collisionItem_def str_def)
  have 3: "isChecked (checkedItems collisionState) (idStr collisionItem)"
    "localStorage collisionState (storageKey (idStr collisionItem)) = Some (str ''true'')"
    by (simp_all add: collisionState_def collisionItem_def isChecked_def)
  have k: "str ''Siam_Square_Poster'' \<notin> set objectPrototypeKeys"
    by (simp add: objectPrototypeKeys_def str_def)
  have i: "idStr collisionItem \<in> idStr ` set (allBranchItems collisionState)"
    by (simp add: allBranchItems_def collisionState_def collisionCatalog_eq collisionItem_def)
  then have 4: "\<not> isChecked (checkedItems (cleanup collisionState)) (idStr collisionItem)"
    using k by (simp add: cleanup_fields(1) isChecked_def) (simp add: collisionItem_def)
  from i have 5: "localStorage (cleanup collisionState) (storageKey (idStr collisionItem)) = None"
    by (simp add: cleanup_fields(2))
  from 0 1 2 3 4 5 show ?thesis unfolding eq tr by simp
qed

text \<open>
  The cleanup keeps the agreement of store and check state at every id that is not a
  name inherited from \<open>Object.prototype\<close>.
\<close>

lemma cleanup_agrees:
  assumes "\<forall>j. localStorage s (storageKey j)
                = (if isChecked (checkedItems s) j then Some (str ''true'') else None)"
    and "j \<notin> set objectPrototypeKeys"
  shows "localStorage (cleanup s) (storageKey j)
           = (if isChecked (checkedItems (cleanup s)) j then Some (str ''true'') else None)"
proof -
  have "storageKey j \<in> storageKey ` idStr ` set (allBranchItems s)
          \<longleftrightarrow> j \<in> idStr ` set (allBranchItems s)"
    by (auto simp: storageKey_inject)
  with assms show ?thesis by (simp add: cleanup_fields(1,2) isChecked_def)
qed

section \<open>The worked sheet\<close>

lemma widgetRow_cells:
  "js_split 44 widgetRow = [str ''1'', str ''Widget'', str ''0'', str ''5'', str ''3'', str ''8'']"
  by (simp add: widgetRow_def str_def)

lemma widgetRow_not_skipped: "\<not> skippedRow (js_split 44 widgetRow)"
  by (simp add: widgetRow_cells skippedRow_def rowItemName_def cellOr_def cleanCell_def trim_def
        stripQuotes_def isWhiteSpace_def startsWith_def str_def)

lemma widgetRow_name: "rowItemName (js_split 44 widgetRow) = str ''Widget''"
  by (simp add: widgetRow_cells rowItemName_def cellOr_def cleanCell_def trim_def
        stripQuotes_def isWhiteSpace_def str_def)

lemma widgetRow_qty:
  "cellQty (js_split 44 widgetRow) (Suc 0) = NaN"
  "cellQty (js_split 44 widgetRow) 2 = Finite 0"
  "cellQty (js_split 44 widgetRow) 3 = Finite 5"
  "cellQty (js_split 44 widgetRow) 4 = Finite 3"
  by (simp_all add: widgetRow_cells cellQty_def cellOr_def cleanCell_def trim_def stripQuotes_def
        isWhiteSpace_def parseInt_def numberOfInteger_def digitValue_def startsWith_def str_def Let_def)

lemma widget_ids:
  "makeId (str ''BranchA'') (str ''Widget'') = str ''BranchA_Widget''"
  "makeId (str ''BranchB'') (str ''Widget'') = str ''BranchB_Widget''"
  by (simp_all add: makeId_def isWhiteSpace_def str_def)

lemma widgetRow_items:
  "rowItems c ((if isBranchHeader n1 then [(1, n1)] else [])
                 @ [(2, str ''Head Office''), (3, str ''BranchA''), (4, str ''BranchB'')]) widgetRow
     = [\<lparr>idStr = str ''BranchA_Widget'', branch = str ''BranchA'', category = c,
          item = str ''Widget'', qty = Finite 5\<rparr>,
        \<lparr>idStr = str ''BranchB_Widget'', branch = str ''BranchB'', category = c,
          item = str ''Widget'', qty = Finite 3\<rparr>]"
  by (simp add: rowItems_def widgetRow_not_skipped widgetRow_name cellItems_def widgetRow_qty
        widget_ids isNaN_def greaterThanZero_def)

lemma widgetHeader_split:
  assumes "44 \<notin> set h0" and "44 \<notin> set h1"
  shows "js_split 44 (h0 @ 44 # h1 @ widgetHeaderTail)
           = [h0, h1, str ''Head Office'', str ''BranchA'', str ''BranchB'', str ''Total'']"
proof -
  have t: "widgetHeaderTail = 44 # str ''Head Office,BranchA,BranchB,Total''"
    by (simp add: widgetHeaderTail_def str_def)
  have "js_split 44 (str ''Head Office,BranchA,BranchB,Total'')
          = [str ''Head Office'', str ''BranchA'', str ''BranchB'', str ''Total'']"
    by (simp add: str_def)
  then show ?thesis
    using assms by (simp add: js_split_append t)
qed

lemma widget_columns:
  assumes "\<not> isBranchHeader (cleanCell h0)"
  shows "filter (\<lambda>e. isBranchHeader (snd e))
           (enumerate 0 (map cleanCell
              [h0, h1, str ''Head Office'', str ''BranchA'', str ''BranchB'', str ''Total'']))
         = (if isBranchHeader (cleanCell h1) then [(1, cleanCell h1)] else [])
             @ [(2, str ''Head Office''), (3, str ''BranchA''), (4, str ''BranchB'')]"
proof -
  have c: "cleanCell (str ''Head Office'') = str ''Head Office''"
      "cleanCell (str ''BranchA'') = str ''BranchA''"
      "cleanCell (str ''BranchB'') = str ''BranchB''"
      "cleanCell (str ''Total'') = str ''Total''"
    by (simp_all add: cleanCell_def trim_def stripQuotes_def isWhiteSpace_def str_def)
  have b: "isBranchHeader (str ''Head Office'')" "isBranchHeader (str ''BranchA'')"
      "isBranchHeader (str ''BranchB'')" "\<not> isBranchHeader (str ''Total'')"
    by (simp_all add: isBranchHeader_def str_def)
  have n: "Suc 0 = 1" "Suc 1 = 2" "Suc 2 = 3" "Suc 3 = 4" by simp_all
  show ?thesis using assms by (simp add: c b enumerate_simps n del: One_nat_def)
qed

lemma widget_sheet_items:
  assumes "44 \<notin> set h0" and "10 \<notin> set h0" and "44 \<notin> set h1" and "10 \<notin> set h1"
    and "\<not> isBranchHeader (cleanCell h0)"
  shows "fst (parseCSV (h0 @ [44] @ h1 @ str '',Head Office,BranchA,BranchB,Total'' @ [10]
                          @ str ''1,Widget,0,5,3,8'') c bs)
         = [\<lparr>idStr = str ''BranchA_Widget'', branch = str ''BranchA'', category = c,
              item = str ''Widget'', qty = Finite 5\<rparr>,
            \<lparr>idStr = str ''BranchB_Widget'', branch = str ''BranchB'', category = c,
              item = str ''Widget'', qty = Finite 3\<rparr>]"
proof -
  let ?t = "h0 @ [44] @ h1 @ str '',Head Office,BranchA,BranchB,Total'' @ [10]
              @ str ''1,Widget,0,5,3,8''"
  let ?h0 = "dropWhile isWhiteSpace h0"
  let ?hdr = "?h0 @ 44 # h1 @ widgetHeaderTail"
  have ne: "?t \<noteq> []" by simp
  have t: "?t = h0 @ (44 # h1 @ widgetHeaderTail @ 10 # widgetRow)"
    by (simp add: widgetHeaderTail_def widgetRow_def)
  have l: "widgetRow \<noteq> []" "last widgetRow = 56"
    by (simp_all add: widgetRow_def str_def)
  have tr: "trim ?t = ?hdr @ 10 # widgetRow"
    unfolding t by (subst trim_append) (simp_all add: l isWhiteSpace_def)
  have "set ?h0 \<subseteq> set h0" by (rule set_dropWhileD [THEN subsetI])
  with assms(1,2) have h0: "44 \<notin> set ?h0" "10 \<notin> set ?h0" by auto
  have "10 \<notin> set widgetHeaderTail" by (simp add: widgetHeaderTail_def str_def)
  with h0(2) assms(4) have nl: "10 \<notin> set ?hdr" by simp
  have "10 \<notin> set widgetRow" by (simp add: widgetRow_def str_def)
  then have "js_split 10 widgetRow = [widgetRow]" by (rule js_split_no_sep)
  moreover have "js_split 10 (?hdr @ 10 # widgetRow) = ?hdr # js_split 10 widgetRow"
    using nl by (rule js_split_append)
  ultimately have lines: "js_split 10 (trim ?t) = [?hdr, widgetRow]"
    by (simp only: tr)
  have "includesStr widgetHeaderTail (str ''Head Office'')"
    by (simp add: widgetHeaderTail_def str_def)
  then have "includesStr (h1 @ widgetHeaderTail) (str ''Head Office'')"
    by (rule includesStr_append)
  then have "includesStr ((?h0 @ [44]) @ h1 @ widgetHeaderTail) (str ''Head Office'')"
    by (rule includesStr_append)
  then have inc: "includesStr ?hdr (str ''Head Office'')" by simp
  have hr: "headerAndRows ?t = Some (?hdr, [widgetRow])"
    using ne inc by (simp only: headerAndRows_def lines findHeader.simps if_False if_True)
  have cols: "branchColumns ?hdr
      = (if isBranchHeader (cleanCell h1) then [(1, cleanCell h1)] else [])
          @ [(2, str ''Head Office''), (3, str ''BranchA''), (4, str ''BranchB'')]"
    unfolding branchColumns_def widgetHeader_split [OF h0(1) assms(3)]
    using assms(5) by (intro widget_columns) (simp add: cleanCell_dropWhile)
  show ?thesis
    by (simp only: parseCSV_items hr option.case prod.case cols list.map concat.simps
          widgetRow_items append_Nil2)
qed


text \<open>
  Claim C4. A sheet whose header line is two leading columns followed by
  \<open>Head Office,BranchA,BranchB,Total\<close> and whose data row is \<open>1,Widget,0,5,3,8\<close> yields
  exactly two items, \<open>(BranchA, Widget, 5)\<close> and \<open>(BranchB, Widget, 3)\<close>, in any category:
  nothing for the head office, whose cell is \<open>0\<close>, and nothing for \<open>Total\<close>. The two
  leading labels, which the example elides, are any labels without comma and line
  break of which the first is not registered as a branch column (it holds the row
  number \<open>1\<close>); in the sheets they are \<open>No.\<close> and \<open>List\<close>.
\<close>

theorem parseCSV_widget_sheet:
  assumes "44 \<notin> set h0" and "10 \<notin> set h0" and "44 \<notin> set h1" and "10 \<notin> set h1"
    and "\<not> isBranchHeader (cleanCell h0)"
  shows "fst (parseCSV (h0 @ [44] @ h1 @ str '',Head Office,BranchA,BranchB,Total'' @ [10]
                          @ str ''1,Widget,0,5,3,8'') c bs)
         = [\<lparr>idStr = str ''BranchA_Widget'', branch = str ''BranchA'', category = c,
              item = str ''Widget'', qty = Finite 5\<rparr>,
            \<lparr>idStr = str ''BranchB_Widget'', branch = str ''BranchB'', category = c,
              item = str ''Widget'', qty = Finite 3\<rparr>]"
  using assms by (rule widget_sheet_items)

lemma widget_sheet_reserved:
  "44 \<notin> set (str ''No.'')" "10 \<notin> set (str ''No.'')"
  "44 \<notin> set (str ''List'')" "10 \<notin> set (str ''List'')"
  "\<not> isBranchHeader (cleanCell (str ''No.''))"
  by (simp_all add: isBranchHeader_def cleanCell_def trim_def stripQuotes_def isWhiteSpace_def
        str_def)

lemma widget_sheet_text:
  "str ''No.'' @ [44] @ str ''List'' @ str '',Head Office,BranchA,BranchB,Total'' @ [10]
      @ str ''1,Widget,0,5,3,8''
   = str ''No.,List,Head Office,BranchA,BranchB,Total'' @ [10] @ str ''1,Widget,0,5,3,8''"
  by (simp add: str_def)

theorem parseCSV_widget_sheet_witness:
  "44 \<notin> set (str ''No.'') \<and> 10 \<notin> set (str ''No.'')
   \<and> 44 \<notin> set (str ''List'') \<and> 10 \<notin> set (str ''List'')
   \<and> \<not> isBranchHeader (cleanCell (str ''No.''))
   \<and> fst (parseCSV (str ''No.,List,Head Office,BranchA,BranchB,Total'' @ [10]
                      @ str ''1,Widget,0,5,3,8'') (str ''RE-Brand'') [])
       = [\<lparr>idStr = str ''BranchA_Widget'', branch = str ''BranchA'', category = str ''RE-Brand'',
            item = str ''Widget'', qty = Finite 5\<rparr>,
          \<lparr>idStr = str ''BranchB_Widget'', branch = str ''BranchB'', category = str ''RE-Brand'',
            item = str ''Widget'', qty = Finite 3\<rparr>]"
  using parseCSV_widget_sheet [OF widget_sheet_reserved, of "str ''RE-Brand''" "[]"]
    widget_sheet_reserved
  by (simp only: widget_sheet_text simp_thms)

section \<open>Properties of the produced items\<close>

text \<open>
  Claim C6. The id of a produced item is a function of its branch label and item name
  alone: the two joined by an underscore, with every run of blanks collapsed to one
  underscore. So any two items, from any two calls of \<open>parseCSV\<close> on any texts and
  categories, that have the same branch and item name have the same id; and an id
  contains no blank.
\<close>

theorem parseCSV_id_deterministic:
  assumes "it1 \<in> set (fst (parseCSV t1 c1 bs1))" and "it2 \<in> set (fst (parseCSV t2 c2 bs2))"
    and "branch it1 = branch it2" and "item it1 = item it2"
  shows "idStr it1 = idStr it2
       \<and> idStr it1 = collapseSpaces (branch it1 @ [95] @ item it1)
       \<and> (\<forall>u \<in> set (idStr it1). \<not> isWhiteSpace u)"
proof -
  from parseCSV_item_fields [OF assms(1)] have 1: "idStr it1 = makeId (branch it1) (item it1)"
    by simp
  from parseCSV_item_fields [OF assms(2)] have 2: "idStr it2 = makeId (branch it2) (item it2)"
    by simp
  from 1 2 assms(3,4) have "idStr it1 = idStr it2" by simp
  moreover from 1 have m: "idStr it1 = collapseSpaces (branch it1 @ [95] @ item it1)"
    by (simp add: makeId_def)
  moreover have "\<forall>u \<in> set (idStr it1). \<not> isWhiteSpace u"
    unfolding m using collapseSpaces_no_blank by blast
  ultimately show ?thesis by blast
qed

theorem parseCSV_id_deterministic_witness:
  "\<lparr>idStr = str ''BranchA_Widget'', branch = str ''BranchA'', category = str ''RE-Brand'',
      item = str ''Widget'', qty = Finite 5\<rparr>
     \<in> set (fst (parseCSV (str ''No.,List,Head Office,BranchA,BranchB,Total'' @ [10]
                      @ str ''1,Widget,0,5,3,8'') (str ''RE-Brand'') []))
   \<and> \<lparr>idStr = str ''BranchA_Widget'', branch = str ''BranchA'', category = str ''RE-System'',
      item = str ''Widget'', qty = Finite 5\<rparr>
     \<in> set (fst (parseCSV (str ''No.,List,Head Office,BranchA,BranchB,Total'' @ [10]
                      @ str ''1,Widget,0,5,3,8'') (str ''RE-System'') [str ''Head Office'']))
   \<and> str ''BranchA_Widget'' = collapseSpaces (str ''BranchA'' @ [95] @ str ''Widget'')"
proof -
  let ?t = "str ''No.,List,Head Office,BranchA,BranchB,Total'' @ [10] @ str ''1,Widget,0,5,3,8''"
  let ?a = "\<lparr>idStr = str ''BranchA_Widget'', branch = str ''BranchA'',
             category = str ''RE-Brand'', item = str ''Widget'', qty = Finite 5\<rparr>"
  let ?b = "\<lparr>idStr = str ''BranchA_Widget'', branch = str ''BranchA'',
             category = str ''RE-System'', item = str ''Widget'', qty = Finite 5\<rparr>"
  have 1: "?a \<in> set (fst (parseCSV ?t (str ''RE-Brand'') []))"
    using widget_sheet_items [OF widget_sheet_reserved, of "str ''RE-Brand''" "[]"]
    by (simp only: widget_sheet_text) simp
  have 2: "?b \<in> set (fst (parseCSV ?t (str ''RE-System'') [str ''Head Office'']))"
    using widget_sheet_items [OF widget_sheet_reserved, of "str ''RE-System''" "[str ''Head Office'']"]
    by (simp only: widget_sheet_text) simp
  have 3: "branch ?a = branch ?b" "item ?a = item ?b" by simp_all
  from parseCSV_id_deterministic [OF 1 2 3] 1 2 show ?thesis by simp
qed

section \<open>Properties of parseInt\<close>

lemma digitsOf_units: "u \<in> set (digitsOf n) \<Longrightarrow> 48 \<le> u \<and> u \<le> 57"
proof (induction n arbitrary: u rule: digitsOf.induct)
  case (1 n)
  show ?case
  proof (cases "n < 10")
    case True
    with "1.prems" show ?thesis by (subst (asm) digitsOf.simps) simp
  next
    case False
    with "1.prems" have "u \<in> set (digitsOf (n div 10)) \<or> u = 48 + n mod 10"
      by (subst (asm) digitsOf.simps) auto
    then show ?thesis
    proof
      assume "u \<in> set (digitsOf (n div 10))"
      with False show ?thesis by (rule "1.IH")
    next
      assume "u = 48 + n mod 10"
      moreover have "n mod 10 < 10" by simp
      ultimately show ?thesis by linarith
    qed
  qed
qed

lemma digitsOf_nonempty: "digitsOf n \<noteq> []"
  by (subst digitsOf.simps) simp

lemma digitsOf_hd: "hd (digitsOf n) = 48 \<longleftrightarrow> n = 0"
proof (induction n rule: digitsOf.induct)
  case (1 n)
  show ?case
  proof (cases "n < 10")
    case True
    then show ?thesis by (subst digitsOf.simps) simp
  next
    case False
    then have d: "digitsOf n = digitsOf (n div 10) @ [48 + n mod 10]"
      by (subst digitsOf.simps) simp
    from False have "n div 10 \<noteq> 0" by simp
    with "1.IH" [OF False] have "hd (digitsOf (n div 10)) \<noteq> 48" by simp
    with False show ?thesis by (simp add: d digitsOf_nonempty)
  qed
qed

lemma digitsValue_digitsOf:
  "digitsValue 10 acc (digitsOf n @ r) = digitsValue 10 (acc * 10 ^ length (digitsOf n) + n) r"
proof (induction n arbitrary: acc r rule: digitsOf.induct)
  case (1 n)
  show ?case
  proof (cases "n < 10")
    case True
    then have "digitsOf n = [48 + n]" by (subst digitsOf.simps) simp
    with True show ?thesis by (simp add: digitValue_def)
  next
    case False
    then have d: "digitsOf n = digitsOf (n div 10) @ [48 + n mod 10]"
      by (subst digitsOf.simps) simp
    have m: "n mod 10 < 10" by simp
    have "digitsValue 10 acc (digitsOf n @ r)
            = digitsValue 10 acc (digitsOf (n div 10) @ ((48 + n mod 10) # r))"
      by (simp add: d)
    also have "\<dots> = digitsValue 10 (acc * 10 ^ length (digitsOf (n div 10)) + n div 10)
                        ((48 + n mod 10) # r)"
      using False by (rule "1.IH")
    also have "\<dots> = digitsValue 10
                        ((acc * 10 ^ length (digitsOf (n div 10)) + n div 10) * 10 + n mod 10) r"
    proof -
      from m have "48 + n mod 10 \<le> 57" by linarith
      then have "digitValue 10 (48 + n mod 10) = Some (n mod 10)" by (simp add: digitValue_def)
      then show ?thesis by (simp only: digitsValue.simps option.case)
    qed
    also have "(acc * 10 ^ length (digitsOf (n div 10)) + n div 10) * 10 + n mod 10
                 = acc * 10 ^ length (digitsOf n) + n"
      by (simp add: d algebra_simps)
    finally show ?thesis .
  qed
qed

lemma digitsValue_stop: "tail = [] \<or> digitValue radix (hd tail) = None \<Longrightarrow> digitsValue radix acc tail = acc"
  by (cases tail) auto

text \<open>
  \<open>parseInt\<close> reads the leading integer of a text. After blanks and one optional sign, the
  decimal digits of \<open>n\<close> followed by anything that does not continue the number are read
  as \<open>n\<close>; what follows is ignored. A text that, after the blanks and the sign, does not
  begin with a digit gives \<open>NaN\<close>.
\<close>

lemma parseInt_dropWhile: "parseInt s = parseInt (dropWhile isWhiteSpace s)"
  by (simp add: parseInt_def)

lemma parseInt_leading_integer:
  assumes "\<forall>u \<in> set blanks. isWhiteSpace u"
    and "sign = [] \<or> sign = [43] \<or> sign = [45]"
    and "tail = [] \<or> digitValue 10 (hd tail) = None"
    and "n = 0 \<longrightarrow> tail = [] \<or> (hd tail \<noteq> 120 \<and> hd tail \<noteq> 88)"
  shows "parseInt (blanks @ sign @ digitsOf n @ tail)
           = numberOfInteger (if sign = [45] then - int n else int n)"
proof -
  obtain c cs where ds: "digitsOf n = c # cs"
    using digitsOf_nonempty [of n] by (cases "digitsOf n") auto
  have c: "48 \<le> c \<and> c \<le> 57" using digitsOf_units [of c n] by (simp add: ds)
  have w: "\<not> isWhiteSpace c" using c by (auto simp: isWhiteSpace_def)
  have ws: "\<not> isWhiteSpace 43" "\<not> isWhiteSpace 45" by (simp_all add: isWhiteSpace_def)
  have dw: "dropWhile isWhiteSpace (blanks @ sign @ digitsOf n @ tail) = sign @ c # cs @ tail"
    using assms(1,2) w ws by (auto simp: dropWhile_append ds)
  have c0: "c = 48 \<longleftrightarrow> n = 0" using digitsOf_hd [of n] by (simp add: ds)
  have x: "str ''0x'' = [48, 120]" "str ''0X'' = [48, 88]" by (simp_all add: str_def)
  have zero: "cs = []" if "n = 0"
  proof -
    from that ds have "digitsOf 0 = c # cs" by simp
    then show ?thesis by (subst (asm) digitsOf.simps) simp
  qed
  have nh: "\<not> prefix [48, x] (c # cs @ tail)" if "x = 120 \<or> x = 88" for x
  proof
    assume p: "prefix [48, x] (c # cs @ tail)"
    then have "c = 48" by simp
    with c0 have n0: "n = 0" by simp
    then have "cs = []" by (rule zero)
    with p have "tail \<noteq> [] \<and> hd tail = x" by (cases tail) simp_all
    with assms(4) n0 that show False by auto
  qed
  have h: "startsWith (c # cs @ tail) (str ''0x'') = False"
          "startsWith (c # cs @ tail) (str ''0X'') = False"
    using nh [of 120] nh [of 88] by (simp_all only: startsWith_def x) simp_all
  have dv: "digitValue 10 c = Some (c - 48)" using c by (simp add: digitValue_def)
  have v: "digitsValue 10 0 (c # cs @ tail) = n"
    using digitsValue_digitsOf [of 0 n tail] digitsValue_stop [OF assms(3), of n]
    by (simp add: ds)
  have sg: "c \<noteq> 45" "c \<noteq> 43" using c by auto
  have core: "parseInt (sign @ c # cs @ tail)
                = numberOfInteger (if sign = [45] then - int n else int n)"
  proof -
    from assms(2) consider "sign = []" | "sign = [43]" | "sign = [45]" by blast
    then show ?thesis
    proof cases
      case 1
      have "parseInt (c # cs @ tail) = numberOfInteger (int (digitsValue 10 0 (c # cs @ tail)))"
        unfolding parseInt_def Let_def using sg w
        by (simp add: h dv del: digitsValue.simps)
      with 1 show ?thesis by (simp only: v) simp
    next
      case 2
      have "parseInt (43 # c # cs @ tail) = numberOfInteger (int (digitsValue 10 0 (c # cs @ tail)))"
        unfolding parseInt_def Let_def using ws
        by (simp add: h dv del: digitsValue.simps)
      with 2 show ?thesis by (simp only: v) simp
    next
      case 3
      have "parseInt (45 # c # cs @ tail) = numberOfInteger (- int (digitsValue 10 0 (c # cs @ tail)))"
        unfolding parseInt_def Let_def using ws
        by (simp add: h dv del: digitsValue.simps)
      with 3 show ?thesis by (simp only: v) simp
    qed
  qed
  have "parseInt (blanks @ sign @ digitsOf n @ tail)
          = parseInt (dropWhile isWhiteSpace (blanks @ sign @ digitsOf n @ tail))"
    by (rule parseInt_dropWhile)
  also have "\<dots> = parseInt (sign @ c # cs @ tail)" by (simp only: dw)
  finally show ?thesis by (simp only: core)
qed

lemma parseInt_no_digit:
  assumes "s = [] \<or> (\<not> isWhiteSpace (hd s) \<and> hd s \<noteq> 43 \<and> hd s \<noteq> 45 \<and> digitValue 10 (hd s) = None)"
  shows "parseInt s = NaN"
proof (cases s)
  case Nil
  then show ?thesis by (simp add: parseInt_def startsWith_def str_def)
next
  case (Cons c cs)
  with assms have c: "\<not> isWhiteSpace c" "c \<noteq> 43" "c \<noteq> 45" "digitValue 10 c = None" by simp_all
  from c(4) have "c \<noteq> 48" by (auto simp: digitValue_def)
  then have h: "\<not> startsWith (c # cs) (str ''0x'')" "\<not> startsWith (c # cs) (str ''0X'')"
    by (simp_all add: startsWith_def str_def)
  show ?thesis unfolding Cons parseInt_def Let_def using c h by simp
qed

lemma numberOfInteger_small: "\<bar>i\<bar> < 2 ^ 53 \<Longrightarrow> numberOfInteger i = Finite i"
  by (simp add: numberOfInteger_def Let_def nat_less_iff)

lemma parseInt_readings:
  "parseInt (str ''5'') = Finite 5" "parseInt (str ''0'') = Finite 0"
  "parseInt (str ''-2'') = Finite (- 2)" "parseInt (str ''abc'') = NaN" "parseInt [] = NaN"
  "parseInt (str ''-'') = NaN" "parseInt (str ''1.9'') = Finite 1"
  "parseInt (str ''12abc'') = Finite 12" "parseInt (str ''0x1F'') = Finite 31"
  "parseInt (str ''1e3'') = Finite 1" "parseInt (str '' 7 '') = Finite 7"
  by (simp_all add: parseInt_def numberOfInteger_def digitValue_def startsWith_def
        isWhiteSpace_def str_def Let_def)

text \<open>
  Beyond \<open>2^53\<close> the integer that was read is rounded to the nearest double, and beyond
  the range of the doubles it is \<open>Infinity\<close>.
\<close>

lemma numberOfInteger_rounds:
  "numberOfInteger 9007199254740993 = Finite 9007199254740992"
  "numberOfInteger 9007199254740995 = Finite 9007199254740996"
  "numberOfInteger (- 9007199254740993) = Finite (- 9007199254740992)"
  by (simp_all add: numberOfInteger_def toDouble_def floorLog2_def roundTiesEven_def
        bitLength.simps Let_def)

lemma parseInt_rounds:
  "parseInt (str ''9007199254740993'') = Finite 9007199254740992"
  by (simp add: parseInt_def digitValue_def startsWith_def isWhiteSpace_def str_def Let_def
        numberOfInteger_rounds)

lemma numberOfInteger_overflows: "numberOfInteger (10 ^ 309) = PosInfinity"
  by (simp add: numberOfInteger_def toDouble_def floorLog2_def roundTiesEven_def
        bitLength.simps Let_def)

lemma parseInt_overflows: "parseInt (digitsOf (10 ^ 309)) = PosInfinity"
proof -
  define n :: nat where "n = 10 ^ 309"
  have "parseInt ([] @ [] @ digitsOf n @ [])
          = numberOfInteger (if [] = [45 :: nat] then - int n else int n)"
    by (rule parseInt_leading_integer) simp_all
  then have "parseInt (digitsOf n) = numberOfInteger (int n)" by simp
  moreover have "int n = 10 ^ 309" by (simp only: n_def of_nat_power of_nat_numeral)
  ultimately have "parseInt (digitsOf n) = PosInfinity"
    by (simp only: numberOfInteger_overflows)
  then show ?thesis by (simp only: n_def)
qed

lemma decimalDigits_digitsOf: "decimalDigits (digitsOf n)"
proof -
  have "(\<forall>u \<in> set ds. 48 \<le> u \<and> u \<le> 57) \<Longrightarrow> decimalDigits ds" for ds
    by (induction ds) simp_all
  then show ?thesis using digitsOf_units by blast
qed

lemma specValidInteger_digitsOf: "specValidInteger (digitsOf n)"
proof -
  obtain c cs where ds: "digitsOf n = c # cs"
    using digitsOf_nonempty [of n] by (cases "digitsOf n") auto
  have "48 \<le> c \<and> c \<le> 57" using digitsOf_units [of c n] by (simp add: ds)
  then have "c \<noteq> 43" "c \<noteq> 45" by auto
  with decimalDigits_digitsOf [of n] show ?thesis
    by (simp add: specValidInteger_def ds)
qed

section \<open>The quantity rule\<close>

lemma quotedSheet_lines:
  "js_split 10 (trim quotedSheet) = [quotedTitle] @ quotedHeader # quotedRows"
  by (simp add: quotedSheet_def quotedTitle_def quotedHeader_def quotedRows_def trim_def
        isWhiteSpace_def str_def)

lemma quotedSheet_anchor:
  "quotedSheet \<noteq> []" "\<not> includesStr quotedTitle (str ''Head Office'')"
  "includesStr quotedHeader (str ''Head Office'')"
  by (simp_all add: quotedSheet_def quotedTitle_def quotedHeader_def quotedRows_def str_def)

lemma quotedHeader_cells:
  "js_split 44 quotedHeader
     = [str ''No.'', str ''List'', [34] @ str ''Head Office'' @ [34], str ''BranchA'',
        str ''BranchB'', str ''Total'']"
  by (simp add: quotedHeader_def str_def)

text \<open>
  Claim C5, the rule as the code has it. The header is the first line that includes
  \<open>Head Office\<close>. For the lines after it in order, and for the registered branch columns
  in order, the catalog holds one item for the cell if the line splits into at least
  five cells, its item name is not empty and does not start with \<open>Total\<close> or \<open>Tracking\<close>,
  and \<open>parseInt\<close> of the trimmed, unquoted cell (of \<open>0\<close> when the cell is missing or empty)
  is greater than zero; and nothing otherwise. The item carries the number that
  \<open>parseInt\<close> returns. Hence the quantity of every item is a positive integer or
  \<open>Infinity\<close>. \<open>parseInt\<close> reads the leading integer of the cell and ignores the text after
  it: blanks, then the decimal digits of \<open>n < 2^53\<close>, then anything that does not
  continue the number, is read as \<open>n\<close>; a cell that begins with neither blank, sign nor
  digit is not a number and leaves no item.
\<close>

theorem parseCSV_quantity_rule:
  assumes "csvText \<noteq> []"
    and "js_split 10 (trim csvText) = before @ header # rest"
    and "\<forall>l \<in> set before. \<not> includesStr l (str ''Head Office'')"
    and "includesStr header (str ''Head Office'')"
  shows "fst (parseCSV csvText c bs) =
           concat (map (\<lambda>line.
             if length (js_split 44 line) < 5 \<or> rowItemName (js_split 44 line) = []
                \<or> startsWith (rowItemName (js_split 44 line)) (str ''Total'')
                \<or> startsWith (rowItemName (js_split 44 line)) (str ''Tracking'')
             then []
             else concat (map (\<lambda>e.
               if greaterThanZero
                    (parseInt (stripQuotes (trim (cellOr (js_split 44 line) (fst e) (str ''0'')))))
               then [\<lparr>idStr = makeId (snd e) (rowItemName (js_split 44 line)), branch = snd e,
                       category = c, item = rowItemName (js_split 44 line),
                       qty = parseInt (stripQuotes (trim
                               (cellOr (js_split 44 line) (fst e) (str ''0''))))\<rparr>]
               else [])
               (filter (\<lambda>e. isBranchHeader (snd e))
                  (enumerate 0 (map (\<lambda>h. stripQuotes (trim h)) (js_split 44 header))))))
             rest)
       \<and> (\<forall>it \<in> set (fst (parseCSV csvText c bs)).
             qty it = PosInfinity \<or> (\<exists>v. qty it = Finite v \<and> 0 < v))
       \<and> (\<forall>blanks n tail.
             (\<forall>u \<in> set blanks. isWhiteSpace u) \<and> n < 2 ^ 53
             \<and> (tail = [] \<or> digitValue 10 (hd tail) = None)
             \<and> (n = 0 \<longrightarrow> tail = [] \<or> (hd tail \<noteq> 120 \<and> hd tail \<noteq> 88))
             \<longrightarrow> parseInt (blanks @ digitsOf n @ tail) = Finite (int n))
       \<and> (\<forall>s. s = [] \<or> (\<not> isWhiteSpace (hd s) \<and> hd s \<noteq> 43 \<and> hd s \<noteq> 45
                          \<and> digitValue 10 (hd s) = None)
             \<longrightarrow> parseInt s = NaN \<and> \<not> greaterThanZero (parseInt s))"
proof -
  have hr: "headerAndRows csvText = Some (header, rest)"
    using assms by (rule headerAndRows_lines)
  have cc: "cleanCell = (\<lambda>h. stripQuotes (trim h))"
    by (rule ext) (simp add: cleanCell_def)
  have r: "rowItems c columns = (\<lambda>line.
             if length (js_split 44 line) < 5 \<or> rowItemName (js_split 44 line) = []
                \<or> startsWith (rowItemName (js_split 44 line)) (str ''Total'')
                \<or> startsWith (rowItemName (js_split 44 line)) (str ''Tracking'')
             then []
             else concat (map (\<lambda>e.
               if greaterThanZero
                    (parseInt (stripQuotes (trim (cellOr (js_split 44 line) (fst e) (str ''0'')))))
               then [\<lparr>idStr = makeId (snd e) (rowItemName (js_split 44 line)), branch = snd e,
                       category = c, item = rowItemName (js_split 44 line),
                       qty = parseInt (stripQuotes (trim
                               (cellOr (js_split 44 line) (fst e) (str ''0''))))\<rparr>]
               else []) columns))" for columns
  proof (rule ext)
    fix line
    have "cellItems c n row = (\<lambda>e.
               if greaterThanZero (parseInt (stripQuotes (trim (cellOr row (fst e) (str ''0'')))))
               then [\<lparr>idStr = makeId (snd e) n, branch = snd e, category = c, item = n,
                       qty = parseInt (stripQuotes (trim (cellOr row (fst e) (str ''0''))))\<rparr>]
               else [])" for n row
      by (rule ext) (simp only: cellItems_greater cellQty_def cleanCell_def)
    then show "rowItems c columns line =
           (if length (js_split 44 line) < 5 \<or> rowItemName (js_split 44 line) = []
                \<or> startsWith (rowItemName (js_split 44 line)) (str ''Total'')
                \<or> startsWith (rowItemName (js_split 44 line)) (str ''Tracking'')
             then []
             else concat (map (\<lambda>e.
               if greaterThanZero
                    (parseInt (stripQuotes (trim (cellOr (js_split 44 line) (fst e) (str ''0'')))))
               then [\<lparr>idStr = makeId (snd e) (rowItemName (js_split 44 line)), branch = snd e,
                       category = c, item = rowItemName (js_split 44 line),
                       qty = parseInt (stripQuotes (trim
                               (cellOr (js_split 44 line) (fst e) (str ''0''))))\<rparr>]
               else []) columns))"
      by (simp only: rowItems_def skippedRow_def)
  qed
  have 1: "fst (parseCSV csvText c bs) =
           concat (map (\<lambda>line.
             if length (js_split 44 line) < 5 \<or> rowItemName (js_split 44 line) = []
                \<or> startsWith (rowItemName (js_split 44 line)) (str ''Total'')
                \<or> startsWith (rowItemName (js_split 44 line)) (str ''Tracking'')
             then []
             else concat (map (\<lambda>e.
               if greaterThanZero
                    (parseInt (stripQuotes (trim (cellOr (js_split 44 line) (fst e) (str ''0'')))))
               then [\<lparr>idStr = makeId (snd e) (rowItemName (js_split 44 line)), branch = snd e,
                       category = c, item = rowItemName (js_split 44 line),
                       qty = parseInt (stripQuotes (trim
                               (cellOr (js_split 44 line) (fst e) (str ''0''))))\<rparr>]
               else [])
               (filter (\<lambda>e. isBranchHeader (snd e))
                  (enumerate 0 (map (\<lambda>h. stripQuotes (trim h)) (js_split 44 header))))))
             rest)"
    by (simp only: parseCSV_items hr option.case prod.case r branchColumns_def cc)
  have 2: "\<forall>it \<in> set (fst (parseCSV csvText c bs)).
             qty it = PosInfinity \<or> (\<exists>v. qty it = Finite v \<and> 0 < v)"
  proof
    fix it assume "it \<in> set (fst (parseCSV csvText c bs))"
    from parseCSV_item_fields [OF this] have "greaterThanZero (qty it)" by simp
    then show "qty it = PosInfinity \<or> (\<exists>v. qty it = Finite v \<and> 0 < v)"
      by (simp only: greaterThanZero_cases)
  qed
  have 3: "\<forall>blanks n tail.
             (\<forall>u \<in> set blanks. isWhiteSpace u) \<and> n < 2 ^ 53
             \<and> (tail = [] \<or> digitValue 10 (hd tail) = None)
             \<and> (n = 0 \<longrightarrow> tail = [] \<or> (hd tail \<noteq> 120 \<and> hd tail \<noteq> 88))
             \<longrightarrow> parseInt (blanks @ digitsOf n @ tail) = Finite (int n)"
  proof (intro allI impI)
    fix blanks :: jsstring and n :: nat and tail :: jsstring
    assume h: "(\<forall>u \<in> set blanks. isWhiteSpace u) \<and> n < 2 ^ 53
             \<and> (tail = [] \<or> digitValue 10 (hd tail) = None)
             \<and> (n = 0 \<longrightarrow> tail = [] \<or> (hd tail \<noteq> 120 \<and> hd tail \<noteq> 88))"
    note b = h [THEN conjunct1]
    note n = h [THEN conjunct2, THEN conjunct1]
    note t = h [THEN conjunct2, THEN conjunct2, THEN conjunct1]
    note z = h [THEN conjunct2, THEN conjunct2, THEN conjunct2]
    have s: "[] = [] \<or> [] = [43::nat] \<or> [] = [45::nat]" by simp
    from parseInt_leading_integer [OF b s t z]
    have "parseInt (blanks @ digitsOf n @ tail) = numberOfInteger (int n)" by simp
    moreover from n have "\<bar>int n\<bar> < 2 ^ 53" by (simp add: of_nat_less_numeral_power_cancel_iff)
    ultimately show "parseInt (blanks @ digitsOf n @ tail) = Finite (int n)"
      by (simp add: numberOfInteger_small)
  qed
  have 4: "\<forall>s. s = [] \<or> (\<not> isWhiteSpace (hd s) \<and> hd s \<noteq> 43 \<and> hd s \<noteq> 45
                          \<and> digitValue 10 (hd s) = None)
             \<longrightarrow> parseInt s = NaN \<and> \<not> greaterThanZero (parseInt s)"
  proof (intro allI impI)
    fix s :: jsstring
    assume "s = [] \<or> (\<not> isWhiteSpace (hd s) \<and> hd s \<noteq> 43 \<and> hd s \<noteq> 45
                          \<and> digitValue 10 (hd s) = None)"
    then have "parseInt s = NaN" by (rule parseInt_no_digit)
    then show "parseInt s = NaN \<and> \<not> greaterThanZero (parseInt s)"
      by (simp add: greaterThanZero_def)
  qed
  show ?thesis by (rule conjI [OF 1 conjI [OF 2 conjI [OF 3 4]]])
qed

lemma quotedSheet_rule:
  "concat (map (\<lambda>line.
             if length (js_split 44 line) < 5 \<or> rowItemName (js_split 44 line) = []
                \<or> startsWith (rowItemName (js_split 44 line)) (str ''Total'')
                \<or> startsWith (rowItemName (js_split 44 line)) (str ''Tracking'')
             then []
             else concat (map (\<lambda>e.
               if greaterThanZero
                    (parseInt (stripQuotes (trim (cellOr (js_split 44 line) (fst e) (str ''0'')))))
               then [\<lparr>idStr = makeId (snd e) (rowItemName (js_split 44 line)), branch = snd e,
                       category = str ''RE-Brand'', item = rowItemName (js_split 44 line),
                       qty = parseInt (stripQuotes (trim
                               (cellOr (js_split 44 line) (fst e) (str ''0''))))\<rparr>]
               else [])
               (filter (\<lambda>e. isBranchHeader (snd e))
                  (enumerate 0 (map (\<lambda>h. stripQuotes (trim h)) (js_split 44 quotedHeader))))))
             quotedRows)
   = [\<lparr>idStr = str ''Head_Office_Widget'', branch = str ''Head Office'',
        category = str ''RE-Brand'', item = str ''Widget'', qty = Finite 5\<rparr>,
      \<lparr>idStr = str ''BranchA_Widget'', branch = str ''BranchA'',
        category = str ''RE-Brand'', item = str ''Widget'', qty = Finite 12\<rparr>,
      \<lparr>idStr = str ''BranchB_Stand'', branch = str ''BranchB'',
        category = str ''RE-Brand'', item = str ''Stand'', qty = Finite 1\<rparr>]"
proof -
  have cols: "filter (\<lambda>e. isBranchHeader (snd e))
                (enumerate 0 (map (\<lambda>h. stripQuotes (trim h)) (js_split 44 quotedHeader)))
              = [(2, str ''Head Office''), (3, str ''BranchA''), (4, str ''BranchB'')]"
    by (simp add: quotedHeader_cells)
       (simp add: trim_def stripQuotes_def isBranchHeader_def isWhiteSpace_def str_def)
  have r1: "js_split 44 (str ''1,Widget,'' @ [34] @ str ''5'' @ [34] @ str '',12abc,0,17'')
      = [str ''1'', str ''Widget'', [34] @ str ''5'' @ [34], str ''12abc'', str ''0'', str ''17'']"
    and r2: "js_split 44 (str ''2,Stand,abc,,1.9,1'')
      = [str ''2'', str ''Stand'', str ''abc'', [], str ''1.9'', str ''1'']"
    and r3: "js_split 44 (str ''Total,,5,12,1,18'')
      = [str ''Total'', [], str ''5'', str ''12'', str ''1'', str ''18'']"
    and r4: "js_split 44 (str ''3,Flag,4'') = [str ''3'', str ''Flag'', str ''4'']"
    by (simp_all add: str_def)
  have n: "rowItemName [str ''1'', str ''Widget'', [34] @ str ''5'' @ [34], str ''12abc'', str ''0'', str ''17''] = str ''Widget''"
    "rowItemName [str ''2'', str ''Stand'', str ''abc'', [], str ''1.9'', str ''1''] = str ''Stand''"
    "rowItemName [str ''Total'', [], str ''5'', str ''12'', str ''1'', str ''18''] = str ''Total''"
    by (simp_all add: rowItemName_def cellOr_def cleanCell_def trim_def stripQuotes_def
          isWhiteSpace_def str_def)
  have s: "\<not> startsWith (str ''Widget'') (str ''Total'')" "\<not> startsWith (str ''Widget'') (str ''Tracking'')"
     "\<not> startsWith (str ''Stand'') (str ''Total'')" "\<not> startsWith (str ''Stand'') (str ''Tracking'')"
     "startsWith (str ''Total'') (str ''Total'')" "str ''Widget'' \<noteq> []" "str ''Stand'' \<noteq> []"
    by (simp_all add: startsWith_def str_def)
  have q: "parseInt (stripQuotes (trim ([34] @ str ''5'' @ [34]))) = Finite 5"
     "parseInt (stripQuotes (trim (str ''12abc''))) = Finite 12"
     "parseInt (stripQuotes (trim (str ''0''))) = Finite 0"
     "parseInt (stripQuotes (trim (str ''abc''))) = NaN"
     "parseInt (stripQuotes (trim (str ''1.9''))) = Finite 1"
    by (simp_all add: trim_def stripQuotes_def isWhiteSpace_def parseInt_def
          numberOfInteger_def digitValue_def startsWith_def str_def Let_def)
  have c: "cellOr [str ''1'', str ''Widget'', [34] @ str ''5'' @ [34], str ''12abc'', str ''0'', str ''17''] 2 (str ''0'') = [34] @ str ''5'' @ [34]"
     "cellOr [str ''1'', str ''Widget'', [34] @ str ''5'' @ [34], str ''12abc'', str ''0'', str ''17''] 3 (str ''0'') = str ''12abc''"
     "cellOr [str ''1'', str ''Widget'', [34] @ str ''5'' @ [34], str ''12abc'', str ''0'', str ''17''] 4 (str ''0'') = str ''0''"
     "cellOr [str ''2'', str ''Stand'', str ''abc'', [], str ''1.9'', str ''1''] 2 (str ''0'') = str ''abc''"
     "cellOr [str ''2'', str ''Stand'', str ''abc'', [], str ''1.9'', str ''1''] 3 (str ''0'') = str ''0''"
     "cellOr [str ''2'', str ''Stand'', str ''abc'', [], str ''1.9'', str ''1''] 4 (str ''0'') = str ''1.9''"
    by (simp_all add: cellOr_def str_def)
  have i: "makeId (str ''Head Office'') (str ''Widget'') = str ''Head_Office_Widget''"
    "makeId (str ''BranchA'') (str ''Widget'') = str ''BranchA_Widget''"
    "makeId (str ''BranchB'') (str ''Stand'') = str ''BranchB_Stand''"
    by (simp_all add: makeId_def isWhiteSpace_def str_def)
  show ?thesis
    unfolding cols quotedRows_def
    by (simp only: list.map concat.simps r1 r2 r3 r4 n s c q i fst_conv snd_conv)
       (simp add: greaterThanZero_def)
qed

theorem parseCSV_quantity_rule_witness:
  "quotedSheet \<noteq> []
   \<and> js_split 10 (trim quotedSheet) = [quotedTitle] @ quotedHeader # quotedRows
   \<and> \<not> includesStr quotedTitle (str ''Head Office'')
   \<and> includesStr quotedHeader (str ''Head Office'')
   \<and> fst (parseCSV quotedSheet (str ''RE-Brand'') [])
       = [\<lparr>idStr = str ''Head_Office_Widget'', branch = str ''Head Office'',
            category = str ''RE-Brand'', item = str ''Widget'', qty = Finite 5\<rparr>,
          \<lparr>idStr = str ''BranchA_Widget'', branch = str ''BranchA'',
            category = str ''RE-Brand'', item = str ''Widget'', qty = Finite 12\<rparr>,
          \<lparr>idStr = str ''BranchB_Stand'', branch = str ''BranchB'',
            category = str ''RE-Brand'', item = str ''Stand'', qty = Finite 1\<rparr>]
   \<and> parseInt (str ''  12abc'') = Finite 12
   \<and> parseInt (str ''abc'') = NaN"
proof -
  have nb: "\<forall>l \<in> set [quotedTitle]. \<not> includesStr l (str ''Head Office'')"
    by (simp add: quotedSheet_anchor(2))
  note t = parseCSV_quantity_rule [OF quotedSheet_anchor(1) quotedSheet_lines nb
             quotedSheet_anchor(3), of "str ''RE-Brand''" "[]"]
  from t [THEN conjunct1]
  have 1: "fst (parseCSV quotedSheet (str ''RE-Brand'') [])
       = [\<lparr>idStr = str ''Head_Office_Widget'', branch = str ''Head Office'',
            category = str ''RE-Brand'', item = str ''Widget'', qty = Finite 5\<rparr>,
          \<lparr>idStr = str ''BranchA_Widget'', branch = str ''BranchA'',
            category = str ''RE-Brand'', item = str ''Widget'', qty = Finite 12\<rparr>,
          \<lparr>idStr = str ''BranchB_Stand'', branch = str ''BranchB'',
            category = str ''RE-Brand'', item = str ''Stand'', qty = Finite 1\<rparr>]"
    by (simp only: quotedSheet_rule)
  have d: "digitsOf 12 = str ''12''" by (simp add: digitsOf.simps str_def)
  have h: "(\<forall>u \<in> set (str ''  ''). isWhiteSpace u) \<and> (12::nat) < 2 ^ 53
             \<and> (str ''abc'' = [] \<or> digitValue 10 (hd (str ''abc'')) = None)
             \<and> ((12::nat) = 0 \<longrightarrow> str ''abc'' = [] \<or> (hd (str ''abc'') \<noteq> 120 \<and> hd (str ''abc'') \<noteq> 88))"
    by (simp add: str_def isWhiteSpace_def digitValue_def)
  from t [THEN conjunct2, THEN conjunct2, THEN conjunct1, THEN spec, THEN spec, THEN spec,
          THEN mp, OF h]
  have 2: "parseInt (str ''  12abc'') = Finite 12" by (simp add: d) (simp add: str_def)
  have g: "str ''abc'' = [] \<or> (\<not> isWhiteSpace (hd (str ''abc'')) \<and> hd (str ''abc'') \<noteq> 43
             \<and> hd (str ''abc'') \<noteq> 45 \<and> digitValue 10 (hd (str ''abc'')) = None)"
    by (simp add: str_def isWhiteSpace_def digitValue_def)
  from t [THEN conjunct2, THEN conjunct2, THEN conjunct2, THEN spec, THEN mp, OF g]
  have 3: "parseInt (str ''abc'') = NaN" by blast
  from quotedSheet_anchor quotedSheet_lines 1 2 3 show ?thesis by (intro conjI)
qed

lemma fractionSheet_items:
  "fst (parseCSV fractionSheet (str ''RE-Brand'') [])
     = [\<lparr>idStr = str ''BranchA_Widget'', branch = str ''BranchA'', category = str ''RE-Brand'',
          item = str ''Widget'', qty = Finite 1\<rparr>,
        \<lparr>idStr = str ''BranchB_Widget'', branch = str ''BranchB'', category = str ''RE-Brand'',
          item = str ''Widget'', qty = Finite 12\<rparr>]"
proof -
  have ne: "fractionSheet \<noteq> []" by (simp add: fractionSheet_def str_def)
  have l1: "js_split 10 (trim fractionSheet) =
    [str ''No.,List,Head Office,BranchA,BranchB'', str ''1,Widget,0,1.9,12abc'']"
    by (simp add: fractionSheet_def trim_def isWhiteSpace_def str_def)
  have l2: "findHeader [str ''No.,List,Head Office,BranchA,BranchB'', str ''1,Widget,0,1.9,12abc'']
    = Some (str ''No.,List,Head Office,BranchA,BranchB'', [str ''1,Widget,0,1.9,12abc''])"
    by (simp add: str_def)
  have l3: "registerHeaders 0 (js_split 44 (str ''No.,List,Head Office,BranchA,BranchB'')) ([], [])
    = ([str ''Head Office'', str ''BranchA'', str ''BranchB''],
       [(2, str ''Head Office''), (3, str ''BranchA''), (4, str ''BranchB'')])"
    by (simp add: str_def cleanCell_def trim_def stripQuotes_def isBranchHeader_def setAdd_def
          isWhiteSpace_def Let_def)
  have l4: "scanLines (str ''RE-Brand'')
       [(2, str ''Head Office''), (3, str ''BranchA''), (4, str ''BranchB'')]
       [str ''1,Widget,0,1.9,12abc''] [] =
     [\<lparr>idStr = str ''BranchA_Widget'', branch = str ''BranchA'', category = str ''RE-Brand'',
          item = str ''Widget'', qty = Finite 1\<rparr>,
        \<lparr>idStr = str ''BranchB_Widget'', branch = str ''BranchB'', category = str ''RE-Brand'',
          item = str ''Widget'', qty = Finite 12\<rparr>]"
    by (simp add: str_def skippedRow_def rowItemName_def cellOr_def cellQty_def parseInt_def
          numberOfInteger_def isNaN_def greaterThanZero_def digitValue_def startsWith_def
          makeId_def cleanCell_def trim_def stripQuotes_def isWhiteSpace_def Let_def)
  show ?thesis by (simp add: parseCSV_stages [OF ne l1 l2 l3 l4])
qed

lemma shortSheet_parsed:
  "parseCSV shortSheet (str ''RE-Brand'') [] = ([], [str ''Head Office'', str ''BranchA''])"
proof -
  have ne: "shortSheet \<noteq> []" by (simp add: shortSheet_def str_def)
  have l1: "js_split 10 (trim shortSheet) =
    [str ''No.,List,Head Office,BranchA'', str ''1,Widget,2,5'']"
    by (simp add: shortSheet_def trim_def isWhiteSpace_def str_def)
  have l2: "findHeader [str ''No.,List,Head Office,BranchA'', str ''1,Widget,2,5'']
    = Some (str ''No.,List,Head Office,BranchA'', [str ''1,Widget,2,5''])"
    by (simp add: str_def)
  have l3: "registerHeaders 0 (js_split 44 (str ''No.,List,Head Office,BranchA'')) ([], [])
    = ([str ''Head Office'', str ''BranchA''], [(2, str ''Head Office''), (3, str ''BranchA'')])"
    by (simp add: str_def cleanCell_def trim_def stripQuotes_def isBranchHeader_def setAdd_def
          isWhiteSpace_def Let_def)
  have l4: "scanLines (str ''RE-Brand'') [(2, str ''Head Office''), (3, str ''BranchA'')]
       [str ''1,Widget,2,5''] [] = []"
    by (simp add: str_def skippedRow_def)
  from ne l1 l2 l3 l4 show ?thesis by (rule parseCSV_stages)
qed

text \<open>
  The rule as the specification words it: for every data row an item is created iff
  the quantity of the cell is a valid integer greater than zero, and every item has a
  positive integer quantity. In \<open>fractionSheet\<close> the cells of the two branches are \<open>1.9\<close>
  and \<open>12abc\<close>: neither is a valid integer, and both create an item, with the quantities
  1 and 12. In \<open>shortSheet\<close> the cell of \<open>BranchA\<close> is the valid integer 5, and no item
  is created, because the row has four cells. And a cell that holds the digits of
  \<open>10^309\<close>, a valid integer, is read as \<open>Infinity\<close>, which is the quantity an item then
  carries.
\<close>

theorem parseCSV_quantity_not_integer:
  "fractionSheet = str ''No.,List,Head Office,BranchA,BranchB'' @ [10] @ str ''1,Widget,0,1.9,12abc''
   \<and> \<not> specValidInteger (str ''1.9'') \<and> \<not> specValidInteger (str ''12abc'')
   \<and> fst (parseCSV fractionSheet (str ''RE-Brand'') [])
       = [\<lparr>idStr = str ''BranchA_Widget'', branch = str ''BranchA'', category = str ''RE-Brand'',
            item = str ''Widget'', qty = Finite 1\<rparr>,
          \<lparr>idStr = str ''BranchB_Widget'', branch = str ''BranchB'', category = str ''RE-Brand'',
            item = str ''Widget'', qty = Finite 12\<rparr>]
   \<and> shortSheet = str ''No.,List,Head Office,BranchA'' @ [10] @ str ''1,Widget,2,5''
   \<and> specValidInteger (str ''5'') \<and> parseInt (str ''5'') = Finite 5
   \<and> fst (parseCSV shortSheet (str ''RE-Brand'') []) = []
   \<and> specValidInteger (digitsOf (10 ^ 309))
   \<and> parseInt (digitsOf (10 ^ 309)) = PosInfinity"
proof -
  have 1: "\<not> specValidInteger (str ''1.9'')" "\<not> specValidInteger (str ''12abc'')"
    "specValidInteger (str ''5'')"
    by (simp_all add: specValidInteger_def str_def)
  have 2: "fractionSheet
      = str ''No.,List,Head Office,BranchA,BranchB'' @ [10] @ str ''1,Widget,0,1.9,12abc''"
    "shortSheet = str ''No.,List,Head Office,BranchA'' @ [10] @ str ''1,Widget,2,5''"
    by (simp_all add: fractionSheet_def shortSheet_def)
  have 3: "fst (parseCSV shortSheet (str ''RE-Brand'') []) = []"
    by (simp add: shortSheet_parsed)
  from 2(1) 1(1,2) fractionSheet_items 2(2) 1(3) parseInt_readings(1) 3
    specValidInteger_digitsOf [of "10 ^ 309"] parseInt_overflows
  show ?thesis by (intro conjI)
qed

section \<open>The head office column\<close>

lemma head_office_is_branch: "isBranchHeader (str ''Head Office'')"
  by (simp add: isBranchHeader_def str_def)

text \<open>
  Claim C10, as the code has it. The header is the first line that includes
  \<open>Head Office\<close>. The label \<open>Head Office\<close> passes the branch-column test, so a column of the
  header whose trimmed, unquoted label is \<open>Head Office\<close> is registered: the label is in
  the returned branch set. Every line after the header that splits into at least five
  cells, whose item name is not empty and does not start with \<open>Total\<close> or \<open>Tracking\<close>,
  and whose cell in that column \<open>parseInt\<close> reads as a number greater than zero, yields
  an item of branch \<open>Head Office\<close> with that quantity.
\<close>

theorem parseCSV_head_office_column:
  assumes "csvText \<noteq> []"
    and "js_split 10 (trim csvText) = before @ header # rest"
    and "\<forall>l \<in> set before. \<not> includesStr l (str ''Head Office'')"
    and "includesStr header (str ''Head Office'')"
    and "k < length (js_split 44 header)"
    and "stripQuotes (trim (js_split 44 header ! k)) = str ''Head Office''"
  shows "isBranchHeader (str ''Head Office'')
       \<and> str ''Head Office'' \<in> set (snd (parseCSV csvText c bs))
       \<and> (\<forall>line \<in> set rest.
             5 \<le> length (js_split 44 line) \<and> rowItemName (js_split 44 line) \<noteq> []
             \<and> \<not> startsWith (rowItemName (js_split 44 line)) (str ''Total'')
             \<and> \<not> startsWith (rowItemName (js_split 44 line)) (str ''Tracking'')
             \<and> greaterThanZero
                 (parseInt (stripQuotes (trim (cellOr (js_split 44 line) k (str ''0'')))))
             \<longrightarrow> \<lparr>idStr = makeId (str ''Head Office'') (rowItemName (js_split 44 line)),
                   branch = str ''Head Office'', category = c,
                   item = rowItemName (js_split 44 line),
                   qty = parseInt (stripQuotes (trim (cellOr (js_split 44 line) k (str ''0''))))\<rparr>
                  \<in> set (fst (parseCSV csvText c bs)))"
proof -
  have hr: "headerAndRows csvText = Some (header, rest)"
    using assms(1-4) by (rule headerAndRows_lines)
  from assms(6) have cl: "cleanCell (js_split 44 header ! k) = str ''Head Office''"
    by (simp add: cleanCell_def)
  have col: "(k, str ''Head Office'') \<in> set (branchColumns header)"
    using assms(5) cl head_office_is_branch
    by (simp add: branchColumns_def in_set_enumerate_eq)
  have "str ''Head Office'' \<in> set (map cleanCell (js_split 44 header))"
    using assms(5) cl by (metis length_map nth_map nth_mem)
  then have bs: "str ''Head Office'' \<in> set (snd (parseCSV csvText c bs))"
    using head_office_is_branch by (simp add: parseCSV_branchSet hr)
  have rows: "\<forall>line \<in> set rest.
             5 \<le> length (js_split 44 line) \<and> rowItemName (js_split 44 line) \<noteq> []
             \<and> \<not> startsWith (rowItemName (js_split 44 line)) (str ''Total'')
             \<and> \<not> startsWith (rowItemName (js_split 44 line)) (str ''Tracking'')
             \<and> greaterThanZero
                 (parseInt (stripQuotes (trim (cellOr (js_split 44 line) k (str ''0'')))))
             \<longrightarrow> \<lparr>idStr = makeId (str ''Head Office'') (rowItemName (js_split 44 line)),
                   branch = str ''Head Office'', category = c,
                   item = rowItemName (js_split 44 line),
                   qty = parseInt (stripQuotes (trim (cellOr (js_split 44 line) k (str ''0''))))\<rparr>
                  \<in> set (fst (parseCSV csvText c bs))"
  proof (intro ballI impI)
    fix line
    assume l: "line \<in> set rest"
      and h: "5 \<le> length (js_split 44 line) \<and> rowItemName (js_split 44 line) \<noteq> []
             \<and> \<not> startsWith (rowItemName (js_split 44 line)) (str ''Total'')
             \<and> \<not> startsWith (rowItemName (js_split 44 line)) (str ''Tracking'')
             \<and> greaterThanZero
                 (parseInt (stripQuotes (trim (cellOr (js_split 44 line) k (str ''0'')))))"
    let ?it = "\<lparr>idStr = makeId (str ''Head Office'') (rowItemName (js_split 44 line)),
                   branch = str ''Head Office'', category = c,
                   item = rowItemName (js_split 44 line),
                   qty = parseInt (stripQuotes (trim (cellOr (js_split 44 line) k (str ''0''))))\<rparr>"
    from h have sk: "\<not> skippedRow (js_split 44 line)" by (simp add: skippedRow_def)
    from h have "?it \<in> set (cellItems c (rowItemName (js_split 44 line)) (js_split 44 line)
                              (k, str ''Head Office''))"
      by (simp add: cellItems_greater cellQty_def cleanCell_def)
    with col sk have "?it \<in> set (rowItems c (branchColumns header) line)"
      by (auto simp: rowItems_def)
    with l show "?it \<in> set (fst (parseCSV csvText c bs))"
      by (auto simp: parseCSV_items hr)
  qed
  from head_office_is_branch bs rows show ?thesis by (intro conjI)
qed

theorem parseCSV_head_office_column_witness:
  "quotedSheet \<noteq> []
   \<and> js_split 10 (trim quotedSheet) = [quotedTitle] @ quotedHeader # quotedRows
   \<and> \<not> includesStr quotedTitle (str ''Head Office'')
   \<and> includesStr quotedHeader (str ''Head Office'')
   \<and> stripQuotes (trim (js_split 44 quotedHeader ! 2)) = str ''Head Office''
   \<and> str ''Head Office'' \<in> set (snd (parseCSV quotedSheet (str ''RE-Brand'') []))
   \<and> \<lparr>idStr = str ''Head_Office_Widget'', branch = str ''Head Office'',
        category = str ''RE-Brand'', item = str ''Widget'', qty = Finite 5\<rparr>
       \<in> set (fst (parseCSV quotedSheet (str ''RE-Brand'') []))"
proof -
  let ?r = "str ''1,Widget,'' @ [34] @ str ''5'' @ [34] @ str '',12abc,0,17''"
  have nb: "\<forall>l \<in> set [quotedTitle]. \<not> includesStr l (str ''Head Office'')"
    by (simp add: quotedSheet_anchor(2))
  have k: "2 < length (js_split 44 quotedHeader)" by (simp add: quotedHeader_cells)
  have c: "stripQuotes (trim (js_split 44 quotedHeader ! 2)) = str ''Head Office''"
    by (simp add: quotedHeader_cells) (simp add: trim_def stripQuotes_def isWhiteSpace_def str_def)
  have rs: "js_split 44 ?r
      = [str ''1'', str ''Widget'', [34] @ str ''5'' @ [34], str ''12abc'', str ''0'', str ''17'']"
    by (simp add: str_def)
  have q: "parseInt (stripQuotes (trim (cellOr (js_split 44 ?r) 2 (str ''0'')))) = Finite 5"
    by (simp add: rs cellOr_def trim_def stripQuotes_def isWhiteSpace_def parseInt_def
          numberOfInteger_def digitValue_def startsWith_def str_def Let_def)
  have n: "rowItemName (js_split 44 ?r) = str ''Widget''"
    by (simp add: rs rowItemName_def cellOr_def cleanCell_def trim_def
        stripQuotes_def isWhiteSpace_def str_def)
  have h: "5 \<le> length (js_split 44 ?r) \<and> rowItemName (js_split 44 ?r) \<noteq> []
             \<and> \<not> startsWith (rowItemName (js_split 44 ?r)) (str ''Total'')
             \<and> \<not> startsWith (rowItemName (js_split 44 ?r)) (str ''Tracking'')
             \<and> greaterThanZero
                 (parseInt (stripQuotes (trim (cellOr (js_split 44 ?r) 2 (str ''0'')))))"
    unfolding q n by (simp add: rs greaterThanZero_def) (simp add: startsWith_def str_def)
  have i: "makeId (str ''Head Office'') (str ''Widget'') = str ''Head_Office_Widget''"
    by (simp add: makeId_def isWhiteSpace_def str_def)
  note t = parseCSV_head_office_column [OF quotedSheet_anchor(1) quotedSheet_lines nb
             quotedSheet_anchor(3) k c, of "str ''RE-Brand''" "[]"]
  from t have 1: "str ''Head Office'' \<in> set (snd (parseCSV quotedSheet (str ''RE-Brand'') []))"
    by blast
  have m: "?r \<in> set quotedRows" by (simp add: quotedRows_def)
  from t [THEN conjunct2, THEN conjunct2, THEN bspec, OF m, THEN mp, OF h]
  have 2: "\<lparr>idStr = str ''Head_Office_Widget'', branch = str ''Head Office'',
        category = str ''RE-Brand'', item = str ''Widget'', qty = Finite 5\<rparr>
       \<in> set (fst (parseCSV quotedSheet (str ''RE-Brand'') []))"
    by (simp only: q n i)
  from quotedSheet_anchor quotedSheet_lines c 1 2 show ?thesis by (intro conjI)
qed

text \<open>
  The same for any data row does not hold. In \<open>shortSheet\<close> the header has four columns, \<open>Head Office\<close>
  is registered, and the row \<open>1,Widget,2,5\<close> has the cell \<open>2\<close> in that column, which
  parses to the positive integer 2. The row has fewer than five cells, so the loop
  passes over it, and the catalog is empty.
\<close>

theorem parseCSV_head_office_short_row:
  "shortSheet = str ''No.,List,Head Office,BranchA'' @ [10] @ str ''1,Widget,2,5''
   \<and> snd (parseCSV shortSheet (str ''RE-Brand'') []) = [str ''Head Office'', str ''BranchA'']
   \<and> js_split 44 (str ''1,Widget,2,5'') ! 2 = str ''2''
   \<and> parseInt (str ''2'') = Finite 2
   \<and> fst (parseCSV shortSheet (str ''RE-Brand'') []) = []"
proof -
  have c: "js_split 44 (str ''1,Widget,2,5'') ! 2 = str ''2''" by (simp add: str_def)
  have p: "parseInt (str ''2'') = Finite 2"
    by (simp add: parseInt_def numberOfInteger_def digitValue_def startsWith_def
          isWhiteSpace_def str_def Let_def)
  have d: "shortSheet = str ''No.,List,Head Office,BranchA'' @ [10] @ str ''1,Widget,2,5''"
    by (simp add: shortSheet_def)
  have s1: "snd (parseCSV shortSheet (str ''RE-Brand'') []) = [str ''Head Office'', str ''BranchA'']"
    and s2: "fst (parseCSV shortSheet (str ''RE-Brand'') []) = []"
    by (simp_all add: shortSheet_parsed)
  from d s1 c p s2 show ?thesis by (intro conjI)
qed

section \<open>Properties of the double arithmetic\<close>

















section \<open>Properties of the progress\<close>













end
